theory Spec2Isabelle
  imports Main "HOL-Library.AList"
begin

section \<open>The icon build script of react-icons\<close>

text \<open>
  The development follows \<^verbatim>\<open>packages/react-icons/scripts/build.js\<close>. The repository holds
  two revisions of the script; \<open>convertIconData\<close>, \<open>generateIconsEntry\<close>, the loop of
  \<open>writeIconModule\<close> and the projection of \<open>writeIconsManifest\<close> are the same text in both.
  Where the revisions differ (\<open>generateIconRow\<close>, \<open>dirInit\<close>, the directory of the
  manifest) both are given, the second under the suffix \<open>_rev\<close>.

  Library calls are not part of the script. The XML parser, \<open>JSON.stringify\<close>, the
  \<open>fs\<close> functions and \<open>glob\<close> are parameters of the functions that call them;
  \<open>camelcase\<close>, \<open>path.resolve\<close>, \<open>path.basename\<close>, \<open>path.extname\<close> and the cheerio
  selector are small models, each introduced where it is used.
\<close>

subsection \<open>Strings\<close>

text \<open>
  The line feed \<^verbatim>\<open>\n\<close> and the single quote of the string templates, and
  \<open>toUpperCase\<close> on one character: an ASCII letter is upper-cased, every other character
  is left as it is.
\<close>

definition newline :: string where
  "newline = [CHR 0x0A]"

definition quote :: string where
  "quote = [CHR 0x27]"

definition toUpperCase_char :: "char \<Rightarrow> char" where
  "toUpperCase_char c =
     (case map_of (zip ''abcdefghijklmnopqrstuvwxyz'' ''ABCDEFGHIJKLMNOPQRSTUVWXYZ'') c of
        Some u \<Rightarrow> u
      | None \<Rightarrow> c)"

text \<open>
  Modelled from the spec: \<open>camelcase\<close> is the npm package of that name, which is not
  under src/. The spec describes its use as "converted from hyphenated to camel-case (e.g.
  \<open>fill-opacity\<close> \<open>\<rightarrow>\<close> \<open>fillOpacity\<close>; \<open>stroke-width\<close> \<open>\<rightarrow>\<close> \<open>strokeWidth\<close>)": leading
  hyphens are dropped, every other run of hyphens is removed and the character after it is
  upper-cased. The flag of \<open>camel\<close> says that the previous character was a hyphen.
\<close>

fun camel :: "bool \<Rightarrow> string \<Rightarrow> string" where
  "camel up [] = []"
| "camel up (c # cs) =
     (if c = CHR ''-'' then camel True cs
      else (if up then toUpperCase_char c else c) # camel False cs)"

definition camelcase :: "string \<Rightarrow> string" where
  "camelcase input = camel False (dropWhile (\<lambda>c. c = CHR ''-'') input)"

text \<open>
  Modelled from the spec: \<open>camelcase(input, { pascalCase: true })\<close> of the same package,
  the "pascal-case conversion" of the spec: the camel-case form with its first character
  upper-cased.
\<close>

definition pascalcase :: "string \<Rightarrow> string" where
  "pascalcase input =
     (case camelcase input of [] \<Rightarrow> [] | c # cs \<Rightarrow> toUpperCase_char c # cs)"

subsection \<open>The parsed document and the icon tree\<close>

text \<open>
  A node of the parsed document, as \<open>elementToTree\<close> reads it: \<open>e.tagName\<close>,
  \<open>e.attribs\<close> and \<open>e.children\<close>, each of which may be undefined (\<open>None\<close>). A text
  node or a comment is \<open>Node None None None\<close>. The attributes are an object; the list
  holds its entries in the order of \<open>Object.keys\<close>.
\<close>

datatype node = Node "string option" "(string \<times> string) list option" "node list option"

text \<open>
  The emitted node \<open>{ tag, attr, child }\<close>; \<open>attr\<close> and \<open>child\<close> are \<open>None\<close> where the
  script leaves them undefined, and \<open>JSON.stringify\<close> then omits the field.
\<close>

datatype ElementNode =
  ElementNode (tag: string) (attr: "(string \<times> string) list option")
    (child: "ElementNode list option")

text \<open>
  The names that \<open>attrConverter\<close> filters out: the array
  \<^verbatim>\<open>["class", ...(tagName === "svg" ? ["xmlns", "width", "height"] : [])]\<close>.
\<close>

definition removed :: "string \<Rightarrow> string list" where
  "removed tagName =
     ''class'' # (if tagName = ''svg'' then [''xmlns'', ''width'', ''height''] else [])"

text \<open>
  \<open>attrConverter\<close>: the keys of \<open>attribs\<close> are filtered, then \<open>reduce\<close> assigns
  \<open>obj[camelcase(name)] = attribs[name]\<close> into an object that starts empty. An assignment
  to a key that the object has replaces the value in place; to a new key it adds an entry
  at the end (\<open>AList.update\<close>). The branch \<open>None\<close> of the lookup is not reached: every
  \<open>name\<close> is a key of \<open>attribs\<close>.
\<close>

definition attrConverter ::
  "(string \<times> string) list option \<Rightarrow> string \<Rightarrow> (string \<times> string) list option" where
  "attrConverter attribs tagName =
     (case attribs of
        None \<Rightarrow> None
      | Some ats \<Rightarrow>
          Some (foldl
            (\<lambda>obj name.
               case map_of ats name of
                 Some v \<Rightarrow> AList.update (camelcase name) v obj
               | None \<Rightarrow> obj)
            []
            (filter (\<lambda>name. name \<notin> set (removed tagName)) (map fst ats))))"

text \<open>
  \<open>elementToTree\<close>: \<open>filter\<close> keeps the nodes whose \<open>tagName\<close> is truthy (defined and
  not the empty string) and not \<open>style\<close>; \<open>map\<close> converts each kept node. The two passes
  are fused into one recursion over the selection. \<open>child\<close> is the conversion of
  \<open>e.children\<close> when that array is defined and not empty, and undefined otherwise.
\<close>

fun elementToTree :: "node list \<Rightarrow> ElementNode list" where
  "elementToTree [] = []"
| "elementToTree (Node tagName attribs children # element) =
     (case tagName of
        None \<Rightarrow> elementToTree element
      | Some t \<Rightarrow>
          if t \<noteq> [] \<and> t \<notin> set [''style''] then
            ElementNode t (attrConverter attribs t)
              (case children of
                 None \<Rightarrow> None
               | Some cs \<Rightarrow> if cs \<noteq> [] then Some (elementToTree cs) else None)
            # elementToTree element
          else elementToTree element)"

text \<open>
  The cheerio selection \<open>$("svg")\<close> on a document parsed in XML mode: every node of the
  document whose tag name is \<open>svg\<close>, in document order (a node before its descendants).
\<close>

fun select :: "string \<Rightarrow> node list \<Rightarrow> node list" where
  "select sel [] = []"
| "select sel (Node tagName attribs children # rest) =
     (if tagName = Some sel then [Node tagName attribs children] else [])
     @ (case children of None \<Rightarrow> [] | Some cs \<Rightarrow> select sel cs)
     @ select sel rest"

text \<open>
  \<open>convertIconData\<close>: \<open>load\<close> stands for \<open>cheerio.load(svg, { xmlMode: true })\<close> and
  gives the top-level nodes of the parsed document. The result is \<open>tree[0]\<close>, undefined
  (\<open>None\<close>) when the tree is empty.
\<close>

definition convertIconData :: "(string \<Rightarrow> node list) \<Rightarrow> string \<Rightarrow> ElementNode option" where
  "convertIconData load svg =
     (case elementToTree (select ''svg'' (load svg)) of
        [] \<Rightarrow> None
      | t # _ \<Rightarrow> Some t)"

subsection \<open>Icon sets and names\<close>

text \<open>
  An icon set descriptor of \<^verbatim>\<open>src/icons\<close>. \<open>formatter\<close> is optional. (The field \<open>id\<close> is
  written \<open>id'\<close>.)
\<close>

record IconSetDescriptor =
  id' :: string
  name :: string
  files :: string
  formatter :: "(string \<Rightarrow> string) option"
  projectUrl :: string
  license :: string
  licenseUrl :: string

text \<open>
  Node's \<open>path.extname\<close> and \<open>path.basename(path, ext)\<close> on a slash-separated path that
  does not end in a slash. The extension runs from the last dot of the last segment to its
  end; there is none when the segment has no dot, when its only dot is its first character,
  or when the segment is \<open>..\<close>. \<open>basename\<close> is the last segment without the suffix
  \<open>ext\<close>, unless \<open>ext\<close> is empty or the whole segment.
\<close>

definition last_segment :: "string \<Rightarrow> string" where
  "last_segment p = rev (takeWhile (\<lambda>c. c \<noteq> CHR ''/'') (rev p))"

definition path_extname :: "string \<Rightarrow> string" where
  "path_extname p =
     (let b = last_segment p;
          e = rev (takeWhile (\<lambda>c. c \<noteq> CHR ''.'') (rev b))
      in if CHR ''.'' \<notin> set b \<or> length b = length e + 1 \<or> b = ''..'' then []
         else CHR ''.'' # e)"

definition path_basename :: "string \<Rightarrow> string \<Rightarrow> string" where
  "path_basename p ext =
     (let b = last_segment p
      in if ext \<noteq> [] \<and> length ext < length b \<and> drop (length b - length ext) b = ext
         then take (length b - length ext) b
         else b)"

text \<open>
  The name under which a file is exported, lines 139 to 141 of \<open>writeIconModule\<close>:
  \<^verbatim>\<open>(icon.formatter && icon.formatter(pascalName)) || pascalName\<close>. A formatter result that
  is falsy, for a string the empty string, gives way to \<open>pascalName\<close>.
\<close>

definition resolvedName :: "IconSetDescriptor \<Rightarrow> string \<Rightarrow> string" where
  "resolvedName icon file =
     (let rawName = path_basename file (path_extname file);
          pascalName = pascalcase rawName
      in case formatter icon of
           None \<Rightarrow> pascalName
         | Some f \<Rightarrow> if f pascalName \<noteq> [] then f pascalName else pascalName)"

subsection \<open>Generated text\<close>

text \<open>
  \<open>generateIconRow\<close> and \<open>generateIconsEntry\<close> switch on \<open>type\<close>, which defaults to
  \<open>"module"\<close> when the argument is undefined (\<open>None\<close>), and return undefined (\<open>None\<close>)
  when no case matches. \<open>stringify\<close> stands for \<open>JSON.stringify\<close> on the icon data.
\<close>

definition generateIconRow ::
  "(ElementNode option \<Rightarrow> string) \<Rightarrow> IconSetDescriptor \<Rightarrow> string \<Rightarrow> ElementNode option
     \<Rightarrow> string option \<Rightarrow> string option" where
  "generateIconRow stringify icon formattedName iconData type =
     (let type = (case type of None \<Rightarrow> ''module'' | Some t \<Rightarrow> t) in
      if type = ''module'' then
        Some (''export const Data'' @ formattedName @ '' = '' @ stringify iconData @ '';'' @ newline
          @ ''export const '' @ formattedName @ '' = function (props) { return GenIcon(Data''
          @ formattedName @ '')(props); };'' @ newline)
      else if type = ''common'' then
        Some (''module.exports.Data'' @ formattedName @ '' = '' @ stringify iconData @ '';'' @ newline
          @ ''module.exports.'' @ formattedName
          @ '' = function (props) { return GenIcon(module.exports.Data''
          @ formattedName @ '')(props); };'' @ newline)
      else if type = ''dts'' then
        Some (''export declare const Data'' @ formattedName @ '': IconData;'' @ newline
          @ ''export declare const '' @ formattedName @ '': IconType;'' @ newline)
      else None)"

text \<open>The other revision of \<open>generateIconRow\<close>: the data is inlined in the function.\<close>

definition generateIconRow_rev ::
  "(ElementNode option \<Rightarrow> string) \<Rightarrow> IconSetDescriptor \<Rightarrow> string \<Rightarrow> ElementNode option
     \<Rightarrow> string option \<Rightarrow> string option" where
  "generateIconRow_rev stringify icon formattedName iconData type =
     (let type = (case type of None \<Rightarrow> ''module'' | Some t \<Rightarrow> t) in
      if type = ''module'' then
        Some (''export var '' @ formattedName @ '' = function (props) {'' @ newline
          @ ''  return GenIcon('' @ stringify iconData @ '')(props);'' @ newline
          @ ''};'' @ newline)
      else if type = ''common'' then
        Some (''module.exports.'' @ formattedName @ '' = function (props) {'' @ newline
          @ ''  return GenIcon('' @ stringify iconData @ '')(props);'' @ newline
          @ ''};'' @ newline)
      else if type = ''dts'' then
        Some (''export declare const '' @ formattedName @ '': IconType;'' @ newline)
      else None)"

definition generateIconsEntry :: "string \<Rightarrow> string option \<Rightarrow> string option" where
  "generateIconsEntry iconId type =
     (let type = (case type of None \<Rightarrow> ''module'' | Some t \<Rightarrow> t) in
      if type = ''module'' then Some (''export * from '' @ quote @ ''./'' @ iconId @ quote @ '';'' @ newline)
      else if type = ''dts'' then Some (''export * from '' @ quote @ ''./'' @ iconId @ quote @ '';'' @ newline)
      else None)"

subsection \<open>The file system\<close>

text \<open>
  An error of a file-system call, with its \<open>code\<close>. A call returns the error (\<open>Inl\<close>:
  the promise is rejected) or its result (\<open>Inr\<close>).
\<close>

datatype error = Error (code: string)

text \<open>
  The functions of Node's \<open>fs\<close> (promisified) and \<open>glob-promise\<close> that the script calls.
  The output directory is a state \<open>'w\<close> that the writing calls transform; nothing is
  assumed about them. The SVG sources and the file lists are inputs of the build, which
  it does not write: \<open>fs_readFile\<close> and \<open>glob\<close> depend on the path or pattern only.
\<close>

record 'w node_fs =
  fs_mkdir :: "string \<Rightarrow> 'w \<Rightarrow> error + 'w"
  fs_writeFile :: "string \<Rightarrow> string \<Rightarrow> 'w \<Rightarrow> error + 'w"
  fs_appendFile :: "string \<Rightarrow> string \<Rightarrow> 'w \<Rightarrow> error + 'w"
  fs_copyFile :: "string \<Rightarrow> string \<Rightarrow> 'w \<Rightarrow> error + 'w"
  fs_readFile :: "string \<Rightarrow> error + string"
  glob :: "string \<Rightarrow> error + string list"

text \<open>
  \<open>path.resolve(base, ...segments)\<close> for an absolute \<open>base\<close> and segments that are plain
  relative names: the segments are appended, each after a slash.
\<close>

definition path_resolve :: "string \<Rightarrow> string list \<Rightarrow> string" where
  "path_resolve base segments = foldl (\<lambda>p s. p @ ''/'' @ s) base segments"

definition join :: "string list \<Rightarrow> string \<Rightarrow> string" where
  "join xs sep = (case xs of [] \<Rightarrow> [] | x # rest \<Rightarrow> foldl (\<lambda>acc y. acc @ sep @ y) x rest)"

subsection \<open>dirInit\<close>

text \<open>
  The handler \<open>ignore\<close> returns for \<open>EEXIST\<close> and throws the error again otherwise.
  \<open>catch_ignore r w\<close> is \<open>promise.catch(ignore)\<close> for a call made in the state \<open>w\<close> with the
  outcome \<open>r\<close>: after an ignored error the state is the one before the call.
\<close>

definition ignore :: "error \<Rightarrow> error + unit" where
  "ignore err = (if code err = ''EEXIST'' then Inr () else Inl err)"

definition catch_ignore :: "error + 'w \<Rightarrow> 'w \<Rightarrow> error + 'w" where
  "catch_ignore r w =
     (case r of
        Inr w' \<Rightarrow> Inr w'
      | Inl err \<Rightarrow> (case ignore err of Inr _ \<Rightarrow> Inr w | Inl e \<Rightarrow> Inl e))"

text \<open>The local function \<open>write\<close> of \<open>dirInit\<close>.\<close>

definition write' :: "'w node_fs \<Rightarrow> string \<Rightarrow> string list \<Rightarrow> string \<Rightarrow> 'w \<Rightarrow> error + 'w" where
  "write' env DIST filePath str w =
     catch_ignore (fs_writeFile env (path_resolve DIST filePath) str w) w"

text \<open>
  The loop \<open>for (const icon of icons)\<close> of \<open>dirInit\<close>. The two revisions differ in the
  module they name in the three preambles: \<open>base\<close> is \<open>../iconBase\<close> in one and
  \<open>../lib/iconBase\<close> in the other, \<open>tyname\<close> is \<open>IconData\<close> or \<open>IconTree\<close>.
\<close>

fun dirInit_icons ::
  "'w node_fs \<Rightarrow> string \<Rightarrow> string \<Rightarrow> string \<Rightarrow> IconSetDescriptor list \<Rightarrow> 'w \<Rightarrow> error + 'w" where
  "dirInit_icons env DIST base tyname [] w = Inr w"
| "dirInit_icons env DIST base tyname (icon # icons) w =
     (case catch_ignore (fs_mkdir env (path_resolve DIST [id' icon]) w) w of
        Inl e \<Rightarrow> Inl e
      | Inr w1 \<Rightarrow>
     (case write' env DIST [id' icon, ''index.js'']
             (''// THIS FILE IS AUTO GENERATED'' @ newline
              @ ''const { GenIcon } = require('' @ quote @ base @ quote @ '')'' @ newline) w1 of
        Inl e \<Rightarrow> Inl e
      | Inr w2 \<Rightarrow>
     (case write' env DIST [id' icon, ''index.mjs'']
             (''// THIS FILE IS AUTO GENERATED'' @ newline
              @ ''import { GenIcon } from '' @ quote @ base @ quote @ '';'' @ newline) w2 of
        Inl e \<Rightarrow> Inl e
      | Inr w3 \<Rightarrow>
     (case write' env DIST [id' icon, ''index.d.ts'']
             (''import { '' @ tyname @ '', IconType } from '' @ quote @ base @ quote @ newline
              @ ''// THIS FILE IS AUTO GENERATED'' @ newline) w3 of
        Inl e \<Rightarrow> Inl e
      | Inr w4 \<Rightarrow> dirInit_icons env DIST base tyname icons w4))))"

text \<open>
  The writes of the four root files, each \<open>await write([file], ...)\<close>: four statements in
  one revision, the loop over \<open>initFiles\<close> in the other.
\<close>

fun dirInit_files :: "'w node_fs \<Rightarrow> string \<Rightarrow> string list \<Rightarrow> 'w \<Rightarrow> error + 'w" where
  "dirInit_files env DIST [] w = Inr w"
| "dirInit_files env DIST (file # initFiles) w =
     (case write' env DIST [file] (''// THIS FILE IS AUTO GENERATED'' @ newline) w of
        Inl e \<Rightarrow> Inl e
      | Inr w1 \<Rightarrow> dirInit_files env DIST initFiles w1)"

definition dirInit :: "'w node_fs \<Rightarrow> string \<Rightarrow> IconSetDescriptor list \<Rightarrow> 'w \<Rightarrow> error + 'w" where
  "dirInit env DIST icons w =
     (case catch_ignore (fs_mkdir env DIST w) w of
        Inl e \<Rightarrow> Inl e
      | Inr w1 \<Rightarrow>
     (case dirInit_icons env DIST ''../iconBase'' ''IconData'' icons w1 of
        Inl e \<Rightarrow> Inl e
      | Inr w2 \<Rightarrow>
          dirInit_files env DIST [''index.d.ts'', ''index.mjs'', ''all.mjs'', ''all.d.ts''] w2))"

text \<open>
  The other revision of \<open>dirInit\<close> also creates \<open>LIB\<close> and writes \<open>.gitignore\<close>. That
  write is the one call of \<open>dirInit\<close> that is neither awaited nor given a handler: its
  promise is dropped. So a call of this \<open>dirInit\<close> has three outcomes. Its promise is
  resolved, or it is rejected with the error of an awaited call, which the caller
  catches; or the dropped promise is rejected (\<open>Unhandled\<close>): then no handler of the
  script receives the error, neither \<open>ignore\<close> nor the \<open>catch\<close> of \<open>main\<close>, and Node
  reports an unhandled rejection and ends the process. When the write succeeds, the
  file is written before the awaited calls that follow.
\<close>

datatype 'w outcome = Resolved 'w | Rejected error | Unhandled error

definition initFiles :: "string list" where
  "initFiles = [''index.d.ts'', ''index.mjs'', ''all.mjs'', ''all.d.ts'']"

definition gitignore :: "IconSetDescriptor list \<Rightarrow> string" where
  "gitignore icons =
     join (''# autogenerated'' # initFiles @ map (\<lambda>icon. id' icon @ ''/'') icons) newline
     @ newline"

definition dirInit_rev ::
  "'w node_fs \<Rightarrow> string \<Rightarrow> string \<Rightarrow> IconSetDescriptor list \<Rightarrow> 'w \<Rightarrow> 'w outcome" where
  "dirInit_rev env DIST LIB icons w =
     (case catch_ignore (fs_mkdir env DIST w) w of
        Inl e \<Rightarrow> Rejected e
      | Inr w1 \<Rightarrow>
     (case catch_ignore (fs_mkdir env LIB w1) w1 of
        Inl e \<Rightarrow> Rejected e
      | Inr w2 \<Rightarrow>
     (case fs_writeFile env (path_resolve DIST [''.gitignore'']) (gitignore icons) w2 of
        Inl e \<Rightarrow> Unhandled e
      | Inr w3 \<Rightarrow>
     (case dirInit_icons env DIST ''../lib/iconBase'' ''IconTree'' icons w3 of
        Inl e \<Rightarrow> Rejected e
      | Inr w4 \<Rightarrow>
     (case dirInit_files env DIST initFiles w4 of
        Inl e \<Rightarrow> Rejected e
      | Inr w5 \<Rightarrow> Resolved w5)))))"

subsection \<open>writeIconModule\<close>

text \<open>
  \<open>await appendFile(path, data, "utf8")\<close> where \<open>data\<close> is the result of a generator.
  Both generators return a string for the types the script passes; for an undefined
  \<open>data\<close> the call is rejected.
\<close>

definition appendFile_utf8 :: "'w node_fs \<Rightarrow> string \<Rightarrow> string option \<Rightarrow> 'w \<Rightarrow> error + 'w" where
  "appendFile_utf8 env path data w =
     (case data of
        None \<Rightarrow> Inl (Error ''ERR_INVALID_ARG_TYPE'')
      | Some str \<Rightarrow> fs_appendFile env path str w)"

text \<open>
  The loop \<open>for (const file of files)\<close> of \<open>writeIconModule\<close>, the same in both
  revisions; \<open>gen\<close> is the \<open>generateIconRow\<close> of the revision and \<open>load\<close> the XML parser.
  The file is read and converted before the test \<open>exists.has(name)\<close>. The function
  returns the set \<open>exists\<close> with the state.
\<close>

fun writeIconModule_files ::
  "'w node_fs \<Rightarrow> (string \<Rightarrow> node list)
     \<Rightarrow> (IconSetDescriptor \<Rightarrow> string \<Rightarrow> ElementNode option \<Rightarrow> string option \<Rightarrow> string option)
     \<Rightarrow> string \<Rightarrow> IconSetDescriptor \<Rightarrow> string list \<Rightarrow> string set \<Rightarrow> 'w
     \<Rightarrow> error + string set \<times> 'w" where
  "writeIconModule_files env load gen DIST icon [] exists w = Inr (exists, w)"
| "writeIconModule_files env load gen DIST icon (file # rest) exists w =
     (case fs_readFile env file of
        Inl e \<Rightarrow> Inl e
      | Inr svgStr \<Rightarrow>
          let iconData = convertIconData load svgStr;
              nm = resolvedName icon file
          in if nm \<in> exists then writeIconModule_files env load gen DIST icon rest exists w
             else
               (case appendFile_utf8 env (path_resolve DIST [id' icon, ''index.mjs''])
                       (gen icon nm iconData (Some ''module'')) w of
                  Inl e \<Rightarrow> Inl e
                | Inr w1 \<Rightarrow>
               (case appendFile_utf8 env (path_resolve DIST [id' icon, ''index.js''])
                       (gen icon nm iconData (Some ''common'')) w1 of
                  Inl e \<Rightarrow> Inl e
                | Inr w2 \<Rightarrow>
               (case appendFile_utf8 env (path_resolve DIST [id' icon, ''index.d.ts''])
                       (gen icon nm iconData (Some ''dts'')) w2 of
                  Inl e \<Rightarrow> Inl e
                | Inr w3 \<Rightarrow>
                    writeIconModule_files env load gen DIST icon rest
                      (insert file (insert nm exists)) w3))))"

text \<open>
  \<open>writeIconModule\<close> with the row generator as a parameter: the files are discovered,
  the two barrel entries are appended, then the loop runs from the empty set. The two
  revisions are its instances for their \<open>generateIconRow\<close>.
\<close>

definition writeIconModule_gen ::
  "'w node_fs \<Rightarrow> (string \<Rightarrow> node list)
     \<Rightarrow> (IconSetDescriptor \<Rightarrow> string \<Rightarrow> ElementNode option \<Rightarrow> string option \<Rightarrow> string option)
     \<Rightarrow> string \<Rightarrow> IconSetDescriptor \<Rightarrow> 'w \<Rightarrow> error + 'w" where
  "writeIconModule_gen env load gen DIST icon w =
     (case glob env (files icon) of
        Inl e \<Rightarrow> Inl e
      | Inr fls \<Rightarrow>
     (case appendFile_utf8 env (path_resolve DIST [''all.mjs''])
             (generateIconsEntry (id' icon) (Some ''module'')) w of
        Inl e \<Rightarrow> Inl e
      | Inr w1 \<Rightarrow>
     (case appendFile_utf8 env (path_resolve DIST [''all.d.ts''])
             (generateIconsEntry (id' icon) (Some ''dts'')) w1 of
        Inl e \<Rightarrow> Inl e
      | Inr w2 \<Rightarrow>
     (case writeIconModule_files env load gen DIST icon fls {} w2 of
        Inl e \<Rightarrow> Inl e
      | Inr (exists, w3) \<Rightarrow> Inr w3))))"

definition writeIconModule ::
  "'w node_fs \<Rightarrow> (string \<Rightarrow> node list) \<Rightarrow> (ElementNode option \<Rightarrow> string)
     \<Rightarrow> string \<Rightarrow> IconSetDescriptor \<Rightarrow> 'w \<Rightarrow> error + 'w" where
  "writeIconModule env load stringify DIST icon w =
     writeIconModule_gen env load (generateIconRow stringify) DIST icon w"

definition writeIconModule_rev ::
  "'w node_fs \<Rightarrow> (string \<Rightarrow> node list) \<Rightarrow> (ElementNode option \<Rightarrow> string)
     \<Rightarrow> string \<Rightarrow> IconSetDescriptor \<Rightarrow> 'w \<Rightarrow> error + 'w" where
  "writeIconModule_rev env load stringify DIST icon w =
     writeIconModule_gen env load (generateIconRow_rev stringify) DIST icon w"

subsection \<open>writeIconsManifest\<close>

text \<open>
  \<open>writeObj\<close>: one object literal with five keys for each icon set. \<open>stringify\<close> stands
  for \<open>JSON.stringify(writeObj, null, 2)\<close>; \<open>dir\<close> is \<open>DIST\<close> in one revision and \<open>LIB\<close>
  in the other.
\<close>

definition writeObj :: "IconSetDescriptor list \<Rightarrow> (string \<times> string) list list" where
  "writeObj icons =
     map (\<lambda>icon.
            [(''id'', id' icon),
             (''name'', name icon),
             (''projectUrl'', projectUrl icon),
             (''license'', license icon),
             (''licenseUrl'', licenseUrl icon)])
         icons"

definition writeIconsManifest ::
  "'w node_fs \<Rightarrow> ((string \<times> string) list list \<Rightarrow> string) \<Rightarrow> string
     \<Rightarrow> IconSetDescriptor list \<Rightarrow> 'w \<Rightarrow> error + 'w" where
  "writeIconsManifest env stringify dir icons w =
     (let manifest = stringify (writeObj icons) in
      case fs_writeFile env (path_resolve dir [''iconsManifest.mjs''])
             (''export const IconsManifest = '' @ manifest) w of
        Inl e \<Rightarrow> Inl e
      | Inr w1 \<Rightarrow>
     (case fs_writeFile env (path_resolve dir [''iconsManifest.js''])
             (''module.exports.IconsManifest = '' @ manifest) w1 of
        Inl e \<Rightarrow> Inl e
      | Inr w2 \<Rightarrow>
          fs_copyFile env ''src/iconsManifest.d.ts''
            (path_resolve dir [''iconsManifest.d.ts'']) w2))"

subsection \<open>Notions used to state the properties\<close>

text \<open>
  Every node of an emitted tree: the node itself, then the nodes of its children in order.
\<close>

fun nodes_of :: "ElementNode \<Rightarrow> ElementNode list" where
  "nodes_of (ElementNode t a c) =
     ElementNode t a c # (case c of None \<Rightarrow> [] | Some cs \<Rightarrow> concat (map nodes_of cs))"

text \<open>
  A qualifying node is one that the \<open>filter\<close> of \<open>elementToTree\<close> keeps: its tag
  name is defined, not empty and not \<open>style\<close>. Text nodes and comments have no tag name.
\<close>

definition qualifying :: "node \<Rightarrow> bool" where
  "qualifying e = (case e of Node tagName _ _ \<Rightarrow>
      (case tagName of None \<Rightarrow> False | Some t \<Rightarrow> t \<noteq> [] \<and> t \<noteq> ''style''))"

text \<open>
  The files of a list that the loop of \<open>writeIconModule\<close> does not skip, given the set
  \<open>exists\<close> at its start: the test and the two insertions of the loop, without its
  input and output.
\<close>

fun processed :: "IconSetDescriptor \<Rightarrow> string list \<Rightarrow> string set \<Rightarrow> string list" where
  "processed icon [] exists = []"
| "processed icon (file # rest) exists =
     (if resolvedName icon file \<in> exists then processed icon rest exists
      else file # processed icon rest (insert file (insert (resolvedName icon file) exists)))"

text \<open>
  The three \<open>appendFile\<close> calls that the loop makes for a file that it does not skip:
  the path and the data of each.
\<close>

definition file_rows ::
  "'w node_fs \<Rightarrow> (string \<Rightarrow> node list)
     \<Rightarrow> (IconSetDescriptor \<Rightarrow> string \<Rightarrow> ElementNode option \<Rightarrow> string option \<Rightarrow> string option)
     \<Rightarrow> string \<Rightarrow> IconSetDescriptor \<Rightarrow> string \<Rightarrow> (string \<times> string option) list" where
  "file_rows env load gen DIST icon file =
     (case fs_readFile env file of
        Inl e \<Rightarrow> []
      | Inr svgStr \<Rightarrow>
          [(path_resolve DIST [id' icon, ''index.mjs''],
              gen icon (resolvedName icon file) (convertIconData load svgStr) (Some ''module'')),
           (path_resolve DIST [id' icon, ''index.js''],
              gen icon (resolvedName icon file) (convertIconData load svgStr) (Some ''common'')),
           (path_resolve DIST [id' icon, ''index.d.ts''],
              gen icon (resolvedName icon file) (convertIconData load svgStr) (Some ''dts''))])"

text \<open>The two \<open>appendFile\<close> calls that \<open>writeIconModule\<close> makes before its loop.\<close>

definition entry_rows :: "string \<Rightarrow> IconSetDescriptor \<Rightarrow> (string \<times> string option) list" where
  "entry_rows DIST icon =
     [(path_resolve DIST [''all.mjs''], generateIconsEntry (id' icon) (Some ''module'')),
      (path_resolve DIST [''all.d.ts''], generateIconsEntry (id' icon) (Some ''dts''))]"

text \<open>A sequence of awaited \<open>appendFile\<close> calls: the first rejection ends it.\<close>

fun appendAll :: "'w node_fs \<Rightarrow> (string \<times> string option) list \<Rightarrow> 'w \<Rightarrow> error + 'w" where
  "appendAll env [] w = Inr w"
| "appendAll env ((path, data) # calls) w =
     (case appendFile_utf8 env path data w of
        Inl e \<Rightarrow> Inl e
      | Inr w1 \<Rightarrow> appendAll env calls w1)"

text \<open>
  The calls of \<open>dirInit\<close>, each awaited and made under \<open>.catch(ignore)\<close>, as a list of
  steps, and the reading of such a list that the specification gives: a step that fails
  with \<open>EEXIST\<close> is passed over and the state stays as it was, a step that fails with
  another code ends the run with that error.
\<close>

datatype step = Mkdir string | WriteFile string string

fun exec :: "'w node_fs \<Rightarrow> step \<Rightarrow> 'w \<Rightarrow> error + 'w" where
  "exec env (Mkdir path) w = fs_mkdir env path w"
| "exec env (WriteFile path str) w = fs_writeFile env path str w"

fun run_ignoring_EEXIST :: "'w node_fs \<Rightarrow> step list \<Rightarrow> 'w \<Rightarrow> error + 'w" where
  "run_ignoring_EEXIST env [] w = Inr w"
| "run_ignoring_EEXIST env (st # sts) w =
     (case exec env st w of
        Inr w1 \<Rightarrow> run_ignoring_EEXIST env sts w1
      | Inl e \<Rightarrow> if code e = ''EEXIST'' then run_ignoring_EEXIST env sts w else Inl e)"

definition icon_steps :: "string \<Rightarrow> string \<Rightarrow> string \<Rightarrow> IconSetDescriptor \<Rightarrow> step list" where
  "icon_steps DIST base tyname icon =
     [Mkdir (path_resolve DIST [id' icon]),
      WriteFile (path_resolve DIST [id' icon, ''index.js''])
        (''// THIS FILE IS AUTO GENERATED'' @ newline
         @ ''const { GenIcon } = require('' @ quote @ base @ quote @ '')'' @ newline),
      WriteFile (path_resolve DIST [id' icon, ''index.mjs''])
        (''// THIS FILE IS AUTO GENERATED'' @ newline
         @ ''import { GenIcon } from '' @ quote @ base @ quote @ '';'' @ newline),
      WriteFile (path_resolve DIST [id' icon, ''index.d.ts''])
        (''import { '' @ tyname @ '', IconType } from '' @ quote @ base @ quote @ newline
         @ ''// THIS FILE IS AUTO GENERATED'' @ newline)]"

definition file_steps :: "string \<Rightarrow> string list \<Rightarrow> step list" where
  "file_steps DIST fls =
     map (\<lambda>file. WriteFile (path_resolve DIST [file]) (''// THIS FILE IS AUTO GENERATED'' @ newline)) fls"

definition dirInit_steps :: "string \<Rightarrow> IconSetDescriptor list \<Rightarrow> step list" where
  "dirInit_steps DIST icons =
     Mkdir DIST # concat (map (icon_steps DIST ''../iconBase'' ''IconData'') icons)
     @ file_steps DIST [''index.d.ts'', ''index.mjs'', ''all.mjs'', ''all.d.ts'']"

text \<open>
  A directory tree in the manner of POSIX, to state what a second run of \<open>dirInit\<close>
  finds: the directories and the regular files with their contents, each under its path.
  \<open>mkdir\<close> fails with \<open>EEXIST\<close> when the path exists; \<open>writeFile\<close> (flag \<open>w\<close>) and
  \<open>appendFile\<close> create the file or write to the one that exists, and fail when the path is
  a directory (\<open>EISDIR\<close>) or its parent is a file (\<open>ENOTDIR\<close>) or is missing
  (\<open>ENOENT\<close>). \<open>copyFile\<close> writes the contents of its source to its destination.
\<close>

record fs_state =
  dirs :: "string list"
  contents :: "(string \<times> string) list"

definition dirname :: "string \<Rightarrow> string" where
  "dirname p =
     (if CHR ''/'' \<notin> set p then ''.''
      else let d = rev (tl (dropWhile (\<lambda>c. c \<noteq> CHR ''/'') (rev p)))
           in if d = [] then ''/'' else d)"

definition posix_mkdir :: "string \<Rightarrow> fs_state \<Rightarrow> error + fs_state" where
  "posix_mkdir p s =
     (if p \<in> set (dirs s) \<or> p \<in> fst ` set (contents s) then Inl (Error ''EEXIST'')
      else if dirname p \<in> fst ` set (contents s) then Inl (Error ''ENOTDIR'')
      else if dirname p \<notin> set (dirs s) then Inl (Error ''ENOENT'')
      else Inr (s\<lparr>dirs := dirs s @ [p]\<rparr>))"

definition posix_put :: "string \<Rightarrow> (string option \<Rightarrow> string) \<Rightarrow> fs_state \<Rightarrow> error + fs_state" where
  "posix_put p f s =
     (if p \<in> set (dirs s) then Inl (Error ''EISDIR'')
      else if dirname p \<in> fst ` set (contents s) then Inl (Error ''ENOTDIR'')
      else if dirname p \<notin> set (dirs s) then Inl (Error ''ENOENT'')
      else Inr (s\<lparr>contents := AList.update p (f (map_of (contents s) p)) (contents s)\<rparr>))"

definition posix_writeFile :: "string \<Rightarrow> string \<Rightarrow> fs_state \<Rightarrow> error + fs_state" where
  "posix_writeFile p str s = posix_put p (\<lambda>old. str) s"

definition posix_appendFile :: "string \<Rightarrow> string \<Rightarrow> fs_state \<Rightarrow> error + fs_state" where
  "posix_appendFile p str s =
     posix_put p (\<lambda>old. case old of None \<Rightarrow> str | Some c \<Rightarrow> c @ str) s"

definition posix_copyFile :: "string \<Rightarrow> string \<Rightarrow> fs_state \<Rightarrow> error + fs_state" where
  "posix_copyFile src dest s =
     (case map_of (contents s) src of
        None \<Rightarrow> Inl (Error (if src \<in> set (dirs s) then ''EISDIR'' else ''ENOENT''))
      | Some c \<Rightarrow> posix_writeFile dest c s)"

definition posix ::
  "(string \<Rightarrow> error + string) \<Rightarrow> (string \<Rightarrow> error + string list) \<Rightarrow> fs_state node_fs" where
  "posix rd gl =
     \<lparr>fs_mkdir = posix_mkdir, fs_writeFile = posix_writeFile, fs_appendFile = posix_appendFile,
      fs_copyFile = posix_copyFile, fs_readFile = rd, glob = gl\<rparr>"

text \<open>
  A step is settled in a state when a run finds its target in place: the path of a
  \<open>Mkdir\<close> exists, the path of a \<open>WriteFile\<close> is a regular file in a directory.
\<close>

fun settled :: "fs_state \<Rightarrow> step \<Rightarrow> bool" where
  "settled s (Mkdir p) = (p \<in> set (dirs s) \<or> p \<in> fst ` set (contents s))"
| "settled s (WriteFile p str) =
     (p \<in> fst ` set (contents s) \<and> p \<notin> set (dirs s) \<and> dirname p \<in> set (dirs s)
      \<and> dirname p \<notin> fst ` set (contents s))"


text \<open>
  A later state of the directory tree: one reached by successful calls that create
  directories and create or write files (\<open>writeFile\<close>, \<open>appendFile\<close> and \<open>copyFile\<close>
  all write through \<open>posix_put\<close>). Nothing is removed.
\<close>

inductive later :: "fs_state \<Rightarrow> fs_state \<Rightarrow> bool" where
  later_refl: "later s s"
| later_mkdir: "later s t \<Longrightarrow> posix_mkdir p t = Inr u \<Longrightarrow> later s u"
| later_put: "later s t \<Longrightarrow> posix_put p f t = Inr u \<Longrightarrow> later s u"

section \<open>Properties of the parser\<close>

subsection \<open>Auxiliary facts\<close>

lemma elementToTree_append:
  "elementToTree (xs @ ys) = elementToTree xs @ elementToTree ys"
  by (induction xs rule: elementToTree.induct) (auto split: option.splits)

lemma elementToTree_concat:
  "elementToTree es = concat (map (\<lambda>k. elementToTree [k]) (filter qualifying es))"
  by (induction es rule: elementToTree.induct) (auto simp: qualifying_def split: option.splits)

lemma no_style_forest:
  "n \<in> set (concat (map nodes_of (elementToTree es))) \<Longrightarrow> tag n \<noteq> ''style''"
proof (induction es rule: elementToTree.induct)
  case 1
  then show ?case by simp
next
  case (2 tagName attribs children element)
  then show ?case
    by (cases tagName; cases children) (auto split: if_splits)
qed

lemma foldl_assign_keys:
  "set names \<subseteq> fst ` set ats \<Longrightarrow>
   fst ` set (foldl (\<lambda>obj nm. case map_of ats nm of
                 Some v \<Rightarrow> AList.update (cc nm) v obj | None \<Rightarrow> obj) obj0 names)
   = fst ` set obj0 \<union> cc ` set names"
proof (induction names rule: rev_induct)
  case Nil
  then show ?case by simp
next
  case (snoc x xs)
  then have "x \<in> fst ` set ats" by simp
  then obtain v where "map_of ats x = Some v"
    by (metis domD dom_map_of_conv_image_fst)
  with snoc show ?case by (auto simp: dom_update)
qed

lemma foldl_assign_value:
  "set names \<subseteq> fst ` set ats \<Longrightarrow>
   map_of (foldl (\<lambda>obj nm. case map_of ats nm of
                 Some v \<Rightarrow> AList.update (cc nm) v obj | None \<Rightarrow> obj) obj0 names) k
   = (if k \<in> cc ` set names then map_of ats (last (filter (\<lambda>n. cc n = k) names))
      else map_of obj0 k)"
proof (induction names rule: rev_induct)
  case Nil
  then show ?case by simp
next
  case (snoc x xs)
  then have "x \<in> fst ` set ats" by simp
  then obtain v where "map_of ats x = Some v"
    by (metis domD dom_map_of_conv_image_fst)
  with snoc show ?case by (auto simp: update_conv')
qed

lemma select_tagName:
  "n \<in> set (select sel doc) \<Longrightarrow> \<exists>a c. n = Node (Some sel) a c"
  by (induction sel doc rule: select.induct) (auto split: option.splits if_splits)

lemma convertIconData_root:
  assumes "convertIconData load svg = Some r"
  shows "\<exists>a c rest. select ''svg'' (load svg) = Node (Some ''svg'') a c # rest
           \<and> tag r = ''svg'' \<and> attr r = attrConverter a ''svg''"
proof (cases "select ''svg'' (load svg)")
  case Nil
  with assms show ?thesis by (simp add: convertIconData_def)
next
  case (Cons n rest)
  then have "n \<in> set (select ''svg'' (load svg))" by simp
  then obtain a c where n: "n = Node (Some ''svg'') a c"
    using select_tagName by blast
  with Cons assms show ?thesis by (auto simp: convertIconData_def)
qed

lemma kept_subset: "set (filter (\<lambda>n. n \<notin> set (removed t)) (map fst ats)) \<subseteq> fst ` set ats"
  by auto

lemma kept_set: "set (filter (\<lambda>n. n \<notin> set (removed t)) (map fst ats)) = {n \<in> fst ` set ats. n \<notin> set (removed t)}"
  by auto

lemma attrConverter_Some:
  "attrConverter (Some ats) t = Some (foldl
            (\<lambda>obj nm.
               case map_of ats nm of
                 Some v \<Rightarrow> AList.update (camelcase nm) v obj
               | None \<Rightarrow> obj)
            []
            (filter (\<lambda>nm. nm \<notin> set (removed t)) (map fst ats)))"
  by (simp add: attrConverter_def)

lemma attrConverter_keys:
  assumes "attrConverter (Some ats) t = Some obj"
  shows "fst ` set obj = camelcase ` {n \<in> fst ` set ats. n \<notin> set (removed t)}"
proof -
  from assms have obj: "obj = foldl
            (\<lambda>obj nm.
               case map_of ats nm of
                 Some v \<Rightarrow> AList.update (camelcase nm) v obj
               | None \<Rightarrow> obj)
            []
            (filter (\<lambda>nm. nm \<notin> set (removed t)) (map fst ats))"
    by (simp only: attrConverter_Some option.inject)
  show ?thesis
    unfolding obj foldl_assign_keys [OF kept_subset] kept_set by simp
qed

lemma attrConverter_value:
  assumes "attrConverter (Some ats) t = Some obj"
  shows "map_of obj k =
     (if k \<in> camelcase ` {n \<in> fst ` set ats. n \<notin> set (removed t)}
      then map_of ats (last (filter (\<lambda>n. camelcase n = k)
                               (filter (\<lambda>n. n \<notin> set (removed t)) (map fst ats))))
      else None)"
proof -
  from assms have obj: "obj = foldl
            (\<lambda>obj nm.
               case map_of ats nm of
                 Some v \<Rightarrow> AList.update (camelcase nm) v obj
               | None \<Rightarrow> obj)
            []
            (filter (\<lambda>nm. nm \<notin> set (removed t)) (map fst ats))"
    by (simp only: attrConverter_Some option.inject)
  show ?thesis
    unfolding obj foldl_assign_value [OF kept_subset] kept_set by simp
qed

lemma last_filter_unique:
  assumes "x \<in> set xs" "P x" "\<forall>y \<in> set xs. P y \<longrightarrow> y = x"
  shows "last (filter P xs) = x"
proof -
  have "x \<in> set (filter P xs)" using assms(1,2) by simp
  then have "filter P xs \<noteq> []" by (metis empty_iff empty_set)
  then have "last (filter P xs) \<in> set (filter P xs)" by (rule last_in_set)
  then have "last (filter P xs) \<in> set xs \<and> P (last (filter P xs))"
    by (simp only: set_filter mem_Collect_eq)
  with assms(3) show ?thesis by blast
qed

lemma attrConverter_unique_value:
  assumes obj: "attrConverter (Some ats) t = Some obj"
    and mem: "(nm, v) \<in> set ats" and dist: "distinct (map fst ats)"
    and kept: "nm \<notin> set (removed t)"
    and uniq: "\<forall>n \<in> fst ` set ats. n \<notin> set (removed t) \<and> camelcase n = camelcase nm \<longrightarrow> n = nm"
  shows "map_of obj (camelcase nm) = Some v"
proof -
  let ?kept = "filter (\<lambda>n. n \<notin> set (removed t)) (map fst ats)"
  have in_kept: "nm \<in> set ?kept" using mem kept by force
  have "\<forall>y \<in> set ?kept. camelcase y = camelcase nm \<longrightarrow> y = nm"
    using uniq unfolding kept_set by blast
  with in_kept have "last (filter (\<lambda>n. camelcase n = camelcase nm) ?kept) = nm"
    by (intro last_filter_unique) simp_all
  moreover have "map_of ats nm = Some v" using mem dist by simp
  moreover have "camelcase nm \<in> camelcase ` {n \<in> fst ` set ats. n \<notin> set (removed t)}"
    using in_kept unfolding kept_set by blast
  ultimately show ?thesis
    using attrConverter_value [OF obj, of "camelcase nm"] by simp
qed

lemma camel_no_hyphen: "CHR ''-'' \<notin> set (camel up s)"
  by (induction s arbitrary: up) (auto simp: toUpperCase_char_def split: option.splits dest!: map_of_SomeD)

lemma camelcase_no_hyphen: "CHR ''-'' \<notin> set (camelcase s)"
  by (simp add: camelcase_def camel_no_hyphen)

lemma elementToTree_length:
  "length (elementToTree es) = length (filter qualifying es)"
  by (induction es rule: elementToTree.induct) (auto simp: qualifying_def split: option.splits)

lemma nodes_of_self: "n \<in> set (nodes_of n)"
  by (cases n) simp

lemma removed_svg: "set (removed ''svg'') = {''class'', ''xmlns'', ''width'', ''height''}"
  by (simp add: removed_def)

lemma removed_other: "t \<noteq> ''svg'' \<Longrightarrow> removed t = [''class'']"
  by (simp add: removed_def)

lemma camelcase_width: "camelcase ''width'' = ''width''"
  by (simp add: camelcase_def)

lemma camelcase_height: "camelcase ''height'' = ''height''"
  by (simp add: camelcase_def)


subsection \<open>Style elements\<close>

text \<open>
  C6. For every parsed document and every position in it, no node of the emitted tree has
  the tag \<open>style\<close>: this holds for every node of the forest that \<open>elementToTree\<close>
  returns, hence for every node of the tree that \<open>convertIconData\<close> returns. A
  \<open>style\<close> element contributes nothing, whatever its attributes and children are: it is
  left out, not emptied, and its children are not visited.
\<close>

theorem style_never_in_tree:
  "(\<forall>n \<in> set (concat (map nodes_of (elementToTree element))). tag n \<noteq> ''style'')
   \<and> (\<forall>r. convertIconData load svg = Some r \<longrightarrow> (\<forall>n \<in> set (nodes_of r). tag n \<noteq> ''style''))
   \<and> elementToTree (Node (Some ''style'') attribs children # element) = elementToTree element"
proof (intro conjI allI impI ballI)
  fix n assume "n \<in> set (concat (map nodes_of (elementToTree element)))"
  then show "tag n \<noteq> ''style''" by (rule no_style_forest)
next
  fix r n
  assume r: "convertIconData load svg = Some r" and n: "n \<in> set (nodes_of r)"
  from r have "r \<in> set (elementToTree (select ''svg'' (load svg)))"
    by (auto simp: convertIconData_def split: list.splits)
  with n have "n \<in> set (concat (map nodes_of (elementToTree (select ''svg'' (load svg)))))"
    by auto
  then show "tag n \<noteq> ''style''" by (rule no_style_forest)
next
  show "elementToTree (Node (Some ''style'') attribs children # element) = elementToTree element"
    by simp
qed

theorem style_never_in_tree_witness:
  "convertIconData
     (\<lambda>_. [Node (Some ''svg'') (Some [])
        (Some [Node (Some ''style'') (Some []) (Some [Node (Some ''path'') (Some []) None]),
               Node (Some ''g'') (Some [])
                 (Some [Node (Some ''style'') None None, Node (Some ''path'') (Some []) (Some [])])])])
     ''<svg/>''
   = Some (ElementNode ''svg'' (Some [])
       (Some [ElementNode ''g'' (Some []) (Some [ElementNode ''path'' (Some []) None])]))
   \<and> ElementNode ''path'' (Some []) None
       \<in> set (nodes_of (ElementNode ''svg'' (Some [])
            (Some [ElementNode ''g'' (Some []) (Some [ElementNode ''path'' (Some []) None])])))
   \<and> tag (ElementNode ''path'' (Some []) None) \<noteq> ''style''"
  using style_never_in_tree [of "[]"
     "\<lambda>_. [Node (Some ''svg'') (Some [])
        (Some [Node (Some ''style'') (Some []) (Some [Node (Some ''path'') (Some []) None]),
               Node (Some ''g'') (Some [])
                 (Some [Node (Some ''style'') None None, Node (Some ''path'') (Some []) (Some [])])])]"
     "''<svg/>''" None None]
  by (simp add: convertIconData_def attrConverter_def)


subsection \<open>The child field\<close>

text \<open>
  C2, as stated, fails: an element whose only children are text nodes, comments or
  \<open>style\<close> elements has no qualifying child, and yet its node has the field \<open>child\<close>,
  holding the empty sequence. The script tests \<open>e.children.length\<close>, the number of child
  nodes of any kind.
\<close>

theorem child_field_counterexample:
  "filter qualifying [Node None None None] = []
   \<and> elementToTree [Node (Some ''title'') (Some []) (Some [Node None None None])]
       = [ElementNode ''title'' (Some []) (Some [])]"
  by (simp add: qualifying_def attrConverter_def)

text \<open>
  C2, amended. The node of an element has no \<open>child\<close> field if and only if the element
  has no child nodes at all (\<open>children\<close> undefined or empty). When it has child nodes,
  \<open>child\<close> is the sequence, possibly empty, of the converted qualifying children in
  document order: one node for each qualifying child.
\<close>

theorem child_field:
  assumes "qualifying (Node tagName attribs children)"
  shows "\<exists>n. elementToTree [Node tagName attribs children] = [n]
     \<and> (child n = None \<longleftrightarrow> (children = None \<or> children = Some []))
     \<and> (\<forall>cs. children = Some cs \<and> cs \<noteq> [] \<longrightarrow>
           child n = Some (elementToTree cs)
           \<and> elementToTree cs = concat (map (\<lambda>k. elementToTree [k]) (filter qualifying cs))
           \<and> length (elementToTree cs) = length (filter qualifying cs))"
proof -
  from assms obtain t where t: "tagName = Some t" "t \<noteq> []" "t \<noteq> ''style''"
    by (auto simp: qualifying_def split: option.splits)
  let ?n = "ElementNode t (attrConverter attribs t)
              (case children of None \<Rightarrow> None
               | Some cs \<Rightarrow> if cs \<noteq> [] then Some (elementToTree cs) else None)"
  have a: "elementToTree [Node tagName attribs children] = [?n]"
    using t by simp
  have b: "child ?n = None \<longleftrightarrow> (children = None \<or> children = Some [])"
    by (cases children) auto
  have c: "\<forall>cs. children = Some cs \<and> cs \<noteq> [] \<longrightarrow>
           child ?n = Some (elementToTree cs)
           \<and> elementToTree cs = concat (map (\<lambda>k. elementToTree [k]) (filter qualifying cs))
           \<and> length (elementToTree cs) = length (filter qualifying cs)"
  proof (intro allI impI conjI)
    fix cs assume "children = Some cs \<and> cs \<noteq> []"
    then show "child ?n = Some (elementToTree cs)" by simp
  next
    fix cs
    show "elementToTree cs = concat (map (\<lambda>k. elementToTree [k]) (filter qualifying cs))"
      by (rule elementToTree_concat)
  next
    fix cs
    show "length (elementToTree cs) = length (filter qualifying cs)"
      by (rule elementToTree_length)
  qed
  show ?thesis
    by (rule exI [of _ ?n], intro conjI) (rule a, rule b, rule c)
qed

theorem child_field_witness:
  "qualifying (Node (Some ''g'') (Some [])
      (Some [Node None None None, Node (Some ''path'') (Some [(''d'', ''M0'')]) (Some []),
             Node (Some ''style'') (Some []) (Some [Node None None None]),
             Node (Some ''rect'') (Some []) None]))
   \<and> elementToTree [Node (Some ''g'') (Some [])
      (Some [Node None None None, Node (Some ''path'') (Some [(''d'', ''M0'')]) (Some []),
             Node (Some ''style'') (Some []) (Some [Node None None None]),
             Node (Some ''rect'') (Some []) None])]
     = [ElementNode ''g'' (Some [])
          (Some [ElementNode ''path'' (Some [(''d'', ''M0'')]) None,
                 ElementNode ''rect'' (Some []) None])]"
  using child_field [of "Some ''g''" "Some []"
      "Some [Node None None None, Node (Some ''path'') (Some [(''d'', ''M0'')]) (Some []),
             Node (Some ''style'') (Some []) (Some [Node None None None]),
             Node (Some ''rect'') (Some []) None]"]
  by (simp add: qualifying_def attrConverter_def removed_def camelcase_def)

subsection \<open>Attribute filtering\<close>

text \<open>
  C1, as stated, fails on both halves. The test of \<open>attrConverter\<close> is
  \<open>tagName === "svg"\<close>, not "is the root": an \<open>svg\<close> element nested in the root loses
  its \<open>width\<close> and \<open>height\<close> as the root does. And the names are filtered before they
  are renamed, so the root keeps an attribute spelled \<open>width-\<close>, which \<open>camelcase\<close>
  then stores under the key \<open>width\<close>.
\<close>

theorem attr_filter_counterexample:
  "convertIconData
     (\<lambda>_. [Node (Some ''svg'') (Some [(''width-'', ''1'')])
        (Some [Node (Some ''svg'') (Some [(''width'', ''2''), (''height'', ''3'')]) (Some [])])])
     ''<svg/>''
   = Some (ElementNode ''svg'' (Some [(''width'', ''1'')])
       (Some [ElementNode ''svg'' (Some []) None]))"
  by (simp add: convertIconData_def attrConverter_def removed_def camelcase_def)

text \<open>
  C1, amended. The node that \<open>convertIconData\<close> returns is the conversion of the first
  \<open>svg\<close> element of the document, with the tag \<open>svg\<close>. Every converted element gets
  \<open>attrConverter\<close> of its own attributes and tag name; the keys of the result are the
  camel-case forms of the attribute names that are not removed. For the tag name \<open>svg\<close>,
  root or not, the removed names are \<open>class\<close>, \<open>xmlns\<close>, \<open>width\<close> and \<open>height\<close>;
  for every other tag name only \<open>class\<close> is removed, and \<open>width\<close> and \<open>height\<close> keep
  their values, provided no other kept attribute has the same camel-case form.
\<close>

theorem attr_filter:
  "(\<forall>r. convertIconData load svg = Some r \<longrightarrow>
      (\<exists>a c rest. select ''svg'' (load svg) = Node (Some ''svg'') a c # rest
         \<and> tag r = ''svg'' \<and> attr r = attrConverter a ''svg''))
   \<and> (qualifying (Node (Some t) attribs children) \<longrightarrow>
        map attr (elementToTree [Node (Some t) attribs children]) = [attrConverter attribs t])
   \<and> (\<forall>obj. attrConverter (Some ats) t = Some obj \<longrightarrow>
        fst ` set obj = camelcase ` {n \<in> fst ` set ats. n \<notin> set (removed t)})
   \<and> set (removed ''svg'') = {''class'', ''xmlns'', ''width'', ''height''}
   \<and> (t \<noteq> ''svg'' \<longrightarrow> set (removed t) = {''class''})
   \<and> (\<forall>obj k v. attrConverter (Some ats) t = Some obj \<and> t \<noteq> ''svg''
          \<and> k \<in> {''width'', ''height''} \<and> (k, v) \<in> set ats \<and> distinct (map fst ats)
          \<and> (\<forall>n \<in> fst ` set ats. n \<noteq> ''class'' \<and> camelcase n = k \<longrightarrow> n = k)
        \<longrightarrow> map_of obj k = Some v)"
proof (intro conjI allI impI)
  fix r assume "convertIconData load svg = Some r"
  then show "\<exists>a c rest. select ''svg'' (load svg) = Node (Some ''svg'') a c # rest
         \<and> tag r = ''svg'' \<and> attr r = attrConverter a ''svg''"
    by (rule convertIconData_root)
next
  assume "qualifying (Node (Some t) attribs children)"
  then show "map attr (elementToTree [Node (Some t) attribs children]) = [attrConverter attribs t]"
    by (simp add: qualifying_def)
next
  fix obj assume "attrConverter (Some ats) t = Some obj"
  then show "fst ` set obj = camelcase ` {n \<in> fst ` set ats. n \<notin> set (removed t)}"
    by (rule attrConverter_keys)
next
  show "set (removed ''svg'') = {''class'', ''xmlns'', ''width'', ''height''}"
    by (rule removed_svg)
next
  assume "t \<noteq> ''svg''"
  then show "set (removed t) = {''class''}" by (simp add: removed_other)
next
  fix obj k v
  assume h: "attrConverter (Some ats) t = Some obj \<and> t \<noteq> ''svg''
          \<and> k \<in> {''width'', ''height''} \<and> (k, v) \<in> set ats \<and> distinct (map fst ats)
          \<and> (\<forall>n \<in> fst ` set ats. n \<noteq> ''class'' \<and> camelcase n = k \<longrightarrow> n = k)"
  then have rem: "removed t = [''class'']" by (simp add: removed_other)
  from h have ck: "camelcase k = k" using camelcase_width camelcase_height by blast
  from h have kc: "k \<noteq> ''class''" by auto
  have "map_of obj (camelcase k) = Some v"
  proof (rule attrConverter_unique_value)
    show "attrConverter (Some ats) t = Some obj" using h by simp
    show "(k, v) \<in> set ats" using h by simp
    show "distinct (map fst ats)" using h by simp
    show "k \<notin> set (removed t)" using kc by (simp add: rem)
    show "\<forall>n\<in>fst ` set ats. n \<notin> set (removed t) \<and> camelcase n = camelcase k \<longrightarrow> n = k"
      using h by (simp add: rem ck)
  qed
  then show "map_of obj k = Some v" by (simp only: ck)
qed

theorem attr_filter_witness:
  "convertIconData
     (\<lambda>_. [Node (Some ''svg'') (Some [(''xmlns'', ''u''), (''width'', ''24''), (''class'', ''x''), (''viewBox'', ''0 0 1 1'')])
        (Some [Node (Some ''rect'') (Some [(''class'', ''y''), (''width'', ''2''), (''height'', ''3'')]) (Some [])])])
     ''<svg/>''
   = Some (ElementNode ''svg'' (Some [(''viewBox'', ''0 0 1 1'')])
       (Some [ElementNode ''rect'' (Some [(''width'', ''2''), (''height'', ''3'')]) None]))
   \<and> attrConverter (Some [(''class'', ''y''), (''width'', ''2''), (''height'', ''3'')]) ''rect''
       = Some [(''width'', ''2''), (''height'', ''3'')]
   \<and> ''rect'' \<noteq> ''svg''
   \<and> map_of [(''width'', ''2''), (''height'', ''3'')] ''width'' = Some ''2''"
proof -
  let ?ats = "[(''class'', ''y''), (''width'', ''2''), (''height'', ''3'')]"
  have ev: "attrConverter (Some ?ats) ''rect'' = Some [(''width'', ''2''), (''height'', ''3'')]"
    by (simp add: attrConverter_def removed_def camelcase_def)
  have hyp: "attrConverter (Some ?ats) ''rect'' = Some [(''width'', ''2''), (''height'', ''3'')]
      \<and> ''rect'' \<noteq> ''svg'' \<and> ''width'' \<in> {''width'', ''height''}
      \<and> (''width'', ''2'') \<in> set ?ats \<and> distinct (map fst ?ats)
      \<and> (\<forall>n \<in> fst ` set ?ats. n \<noteq> ''class'' \<and> camelcase n = ''width'' \<longrightarrow> n = ''width'')"
    by (simp add: ev camelcase_def)
  have "map_of [(''width'', ''2''), (''height'', ''3'')] ''width'' = Some ''2''"
    by (rule attr_filter [THEN conjunct2, THEN conjunct2, THEN conjunct2, THEN conjunct2,
          THEN conjunct2, rule_format, OF hyp])
  then show ?thesis
    by (simp add: convertIconData_def attrConverter_def removed_def camelcase_def)
qed

subsection \<open>Attribute renaming\<close>

text \<open>
  C5, as stated, fails when two kept attributes of one element have the same camel-case
  form: \<open>reduce\<close> assigns both to one key and the later value replaces the earlier one.
  Here the value \<open>0.5\<close> of \<open>fill-opacity\<close> is lost.
\<close>

theorem attr_rename_counterexample:
  "attrConverter (Some [(''fill-opacity'', ''0.5''), (''fillOpacity'', ''0.7'')]) ''path''
     = Some [(''fillOpacity'', ''0.7'')]
   \<and> camelcase ''fill-opacity'' = ''fillOpacity''"
  by (simp add: attrConverter_def removed_def camelcase_def toUpperCase_char_def)

text \<open>
  C5, amended. For every kept attribute (hyphenated or not), the emitted mapping has the
  key \<open>camelcase nm\<close>, in which no hyphen remains, and the value under that key is the
  value of the last kept attribute, in the order of the source, with that camel-case form.
  When no other kept attribute of the element has the same camel-case form, it is the
  attribute's own value, unchanged.
\<close>

theorem attr_rename:
  assumes "attrConverter (Some ats) t = Some obj"
    and "(nm, v) \<in> set ats" and "distinct (map fst ats)"
    and "nm \<notin> set (removed t)"
  shows "camelcase nm \<in> fst ` set obj
     \<and> CHR ''-'' \<notin> set (camelcase nm)
     \<and> map_of obj (camelcase nm) =
         map_of ats (last (filter (\<lambda>n. camelcase n = camelcase nm)
                              (filter (\<lambda>n. n \<notin> set (removed t)) (map fst ats))))
     \<and> ((\<forall>n \<in> fst ` set ats. n \<notin> set (removed t) \<and> camelcase n = camelcase nm \<longrightarrow> n = nm)
          \<longrightarrow> map_of obj (camelcase nm) = Some v)"
proof (intro conjI impI)
  have mem: "nm \<in> {n \<in> fst ` set ats. n \<notin> set (removed t)}"
    using assms(2,4) by force
  then show k: "camelcase nm \<in> fst ` set obj"
    unfolding attrConverter_keys [OF assms(1)] by (rule imageI)
  show "CHR ''-'' \<notin> set (camelcase nm)" by (rule camelcase_no_hyphen)
  from mem have "camelcase nm \<in> camelcase ` {n \<in> fst ` set ats. n \<notin> set (removed t)}"
    by (rule imageI)
  then show "map_of obj (camelcase nm) =
         map_of ats (last (filter (\<lambda>n. camelcase n = camelcase nm)
                              (filter (\<lambda>n. n \<notin> set (removed t)) (map fst ats))))"
    using attrConverter_value [OF assms(1), of "camelcase nm"] by simp
next
  assume "\<forall>n \<in> fst ` set ats. n \<notin> set (removed t) \<and> camelcase n = camelcase nm \<longrightarrow> n = nm"
  with assms show "map_of obj (camelcase nm) = Some v"
    by (intro attrConverter_unique_value)
qed

theorem attr_rename_witness:
  "attrConverter (Some [(''d'', ''M1 2''), (''fill-opacity'', ''0.5''), (''class'', ''x''), (''stroke-width'', ''2'')]) ''path''
     = Some [(''d'', ''M1 2''), (''fillOpacity'', ''0.5''), (''strokeWidth'', ''2'')]
   \<and> (''fill-opacity'', ''0.5'') \<in> set [(''d'', ''M1 2''), (''fill-opacity'', ''0.5''), (''class'', ''x''), (''stroke-width'', ''2'')]
   \<and> distinct (map fst [(''d'', ''M1 2''), (''fill-opacity'', ''0.5''), (''class'', ''x''), (''stroke-width'', ''2'')])
   \<and> ''fill-opacity'' \<notin> set (removed ''path'')
   \<and> camelcase ''fill-opacity'' = ''fillOpacity''
   \<and> map_of [(''d'', ''M1 2''), (''fillOpacity'', ''0.5''), (''strokeWidth'', ''2'')] ''fillOpacity'' = Some ''0.5''"
  using attr_rename [of "[(''d'', ''M1 2''), (''fill-opacity'', ''0.5''), (''class'', ''x''), (''stroke-width'', ''2'')]"
      "''path''" "[(''d'', ''M1 2''), (''fillOpacity'', ''0.5''), (''strokeWidth'', ''2'')]" "''fill-opacity''" "''0.5''"]
  by (simp add: attrConverter_def removed_def camelcase_def toUpperCase_char_def)

section \<open>Properties of the generator\<close>

subsection \<open>Barrel entries\<close>

text \<open>
  C10. For every icon-set id, \<open>generateIconsEntry\<close> gives the same string for the types
  \<open>module\<close> and \<open>dts\<close> (an omitted type counts as \<open>module\<close>), and no value for
  any other type.
\<close>

theorem generateIconsEntry_formats:
  "generateIconsEntry iconId (Some ''module'') = generateIconsEntry iconId (Some ''dts'')
   \<and> generateIconsEntry iconId (Some ''module'')
       = Some (''export * from '' @ quote @ ''./'' @ iconId @ quote @ '';'' @ newline)
   \<and> generateIconsEntry iconId None = generateIconsEntry iconId (Some ''module'')
   \<and> (\<forall>t. t \<noteq> ''module'' \<and> t \<noteq> ''dts'' \<longrightarrow> generateIconsEntry iconId (Some t) = None)"
  by (simp add: generateIconsEntry_def)

theorem generateIconsEntry_formats_witness:
  "generateIconsEntry ''fa'' (Some ''module'') = generateIconsEntry ''fa'' (Some ''dts'')
   \<and> ''common'' \<noteq> ''module'' \<and> ''common'' \<noteq> ''dts''
   \<and> generateIconsEntry ''fa'' (Some ''common'') = None"
  using generateIconsEntry_formats [of "''fa''"] by simp

subsection \<open>Resolved names\<close>

text \<open>
  C4, as stated, fails for a formatter that returns the empty string: the expression
  \<^verbatim>\<open>(icon.formatter && icon.formatter(pascalName)) || pascalName\<close> then falls back to the
  pascal-cased base name, so the resolved name is not "whatever string the formatter
  returns".
\<close>

theorem resolvedName_counterexample:
  "resolvedName \<lparr>id' = ''fa'', name = ''Font Awesome'', files = ''svg/*.svg'',
       formatter = Some (\<lambda>pascalName. []), projectUrl = ''https://fontawesome.com'',
       license = ''MIT'', licenseUrl = ''https://opensource.org/licenses/MIT''\<rparr>
     ''svg/arrow-left.svg'' = ''ArrowLeft''"
  by (simp add: resolvedName_def path_basename_def path_extname_def last_segment_def
      pascalcase_def camelcase_def toUpperCase_char_def)

text \<open>
  C4, amended. Without a formatter the resolved name is the pascal-cased base name. With a
  formatter it is the formatter's result on the pascal-cased base name when that result
  is not the empty string, and the pascal-cased base name itself when it is.
\<close>

theorem resolvedName_formatter:
  "(formatter icon = None \<longrightarrow>
      resolvedName icon file = pascalcase (path_basename file (path_extname file)))
   \<and> (\<forall>f. formatter icon = Some f \<and> f (pascalcase (path_basename file (path_extname file))) \<noteq> []
        \<longrightarrow> resolvedName icon file = f (pascalcase (path_basename file (path_extname file))))
   \<and> (\<forall>f. formatter icon = Some f \<and> f (pascalcase (path_basename file (path_extname file))) = []
        \<longrightarrow> resolvedName icon file = pascalcase (path_basename file (path_extname file)))"
  by (simp add: resolvedName_def Let_def)

theorem resolvedName_formatter_witness:
  "formatter \<lparr>id' = ''fa'', name = ''Font Awesome'', files = ''svg/*.svg'',
       formatter = Some (\<lambda>pascalName. ''Fa'' @ pascalName), projectUrl = ''https://fontawesome.com'',
       license = ''MIT'', licenseUrl = ''https://opensource.org/licenses/MIT''\<rparr>
     = Some (\<lambda>pascalName. ''Fa'' @ pascalName)
   \<and> pascalcase (path_basename ''svg/arrow-left.svg'' (path_extname ''svg/arrow-left.svg'')) = ''ArrowLeft''
   \<and> resolvedName \<lparr>id' = ''fa'', name = ''Font Awesome'', files = ''svg/*.svg'',
       formatter = Some (\<lambda>pascalName. ''Fa'' @ pascalName), projectUrl = ''https://fontawesome.com'',
       license = ''MIT'', licenseUrl = ''https://opensource.org/licenses/MIT''\<rparr>
     ''svg/arrow-left.svg'' = ''FaArrowLeft''"
  using resolvedName_formatter [of "\<lparr>id' = ''fa'', name = ''Font Awesome'', files = ''svg/*.svg'',
       formatter = Some (\<lambda>pascalName. ''Fa'' @ pascalName), projectUrl = ''https://fontawesome.com'',
       license = ''MIT'', licenseUrl = ''https://opensource.org/licenses/MIT''\<rparr>" "''svg/arrow-left.svg''"]
  by (simp add: path_basename_def path_extname_def last_segment_def
      pascalcase_def camelcase_def toUpperCase_char_def)

subsection \<open>The manifest\<close>

lemma writeObj_keys:
  "map (map fst) (writeObj icons)
     = map (\<lambda>icon. [''id'', ''name'', ''projectUrl'', ''license'', ''licenseUrl'']) icons"
  by (simp add: writeObj_def)

lemma writeObj_values:
  "map (\<lambda>e. map (\<lambda>k. map_of e k) [''id'', ''name'', ''projectUrl'', ''license'', ''licenseUrl''])
       (writeObj icons)
     = map (\<lambda>icon. [Some (id' icon), Some (name icon), Some (projectUrl icon),
                      Some (license icon), Some (licenseUrl icon)]) icons"
  by (simp add: writeObj_def)

lemma writeObj_no_leak:
  "e \<in> set (writeObj icons) \<Longrightarrow> ''files'' \<notin> fst ` set e \<and> ''formatter'' \<notin> fst ` set e"
  by (auto simp: writeObj_def)

lemma writeIconsManifest_calls:
  assumes "writeIconsManifest env stringify dir icons w = Inr w'"
  shows "\<exists>w1 w2.
      fs_writeFile env (path_resolve dir [''iconsManifest.mjs''])
        (''export const IconsManifest = '' @ stringify (writeObj icons)) w = Inr w1
    \<and> fs_writeFile env (path_resolve dir [''iconsManifest.js''])
        (''module.exports.IconsManifest = '' @ stringify (writeObj icons)) w1 = Inr w2
    \<and> fs_copyFile env ''src/iconsManifest.d.ts'' (path_resolve dir [''iconsManifest.d.ts'']) w2 = Inr w'"
  using assms unfolding writeIconsManifest_def Let_def
  by (auto split: sum.splits)

text \<open>
  C7. For every sequence of icon-set descriptors, the manifest has one entry for each
  descriptor, in the order of the descriptors; every entry has exactly the five keys
  \<open>id\<close>, \<open>name\<close>, \<open>projectUrl\<close>, \<open>license\<close>, \<open>licenseUrl\<close>, in that order, with
  the values of the descriptor, and neither \<open>files\<close> nor \<open>formatter\<close>. When
  \<open>writeIconsManifest\<close> returns, it has written the serialization of exactly these
  entries, after the export prefix, to the two manifest modules.
\<close>

theorem manifest_entries:
  "length (writeObj icons) = length icons
   \<and> map (map fst) (writeObj icons)
       = map (\<lambda>icon. [''id'', ''name'', ''projectUrl'', ''license'', ''licenseUrl'']) icons
   \<and> map (\<lambda>e. map (\<lambda>k. map_of e k) [''id'', ''name'', ''projectUrl'', ''license'', ''licenseUrl''])
         (writeObj icons)
       = map (\<lambda>icon. [Some (id' icon), Some (name icon), Some (projectUrl icon),
                        Some (license icon), Some (licenseUrl icon)]) icons
   \<and> (\<forall>e \<in> set (writeObj icons). ''files'' \<notin> fst ` set e \<and> ''formatter'' \<notin> fst ` set e)
   \<and> (\<forall>w'. writeIconsManifest env stringify dir icons w = Inr w' \<longrightarrow>
        (\<exists>w1 w2.
            fs_writeFile env (path_resolve dir [''iconsManifest.mjs''])
              (''export const IconsManifest = '' @ stringify (writeObj icons)) w = Inr w1
          \<and> fs_writeFile env (path_resolve dir [''iconsManifest.js''])
              (''module.exports.IconsManifest = '' @ stringify (writeObj icons)) w1 = Inr w2
          \<and> fs_copyFile env ''src/iconsManifest.d.ts''
              (path_resolve dir [''iconsManifest.d.ts'']) w2 = Inr w'))"
proof (intro conjI ballI allI impI)
  show "length (writeObj icons) = length icons" by (simp add: writeObj_def)
  show "map (map fst) (writeObj icons)
       = map (\<lambda>icon. [''id'', ''name'', ''projectUrl'', ''license'', ''licenseUrl'']) icons"
    by (rule writeObj_keys)
  show "map (\<lambda>e. map (\<lambda>k. map_of e k) [''id'', ''name'', ''projectUrl'', ''license'', ''licenseUrl''])
         (writeObj icons)
       = map (\<lambda>icon. [Some (id' icon), Some (name icon), Some (projectUrl icon),
                        Some (license icon), Some (licenseUrl icon)]) icons"
    by (rule writeObj_values)
next
  fix e assume "e \<in> set (writeObj icons)"
  then show "''files'' \<notin> fst ` set e" by (simp add: writeObj_no_leak)
next
  fix e assume "e \<in> set (writeObj icons)"
  then show "''formatter'' \<notin> fst ` set e" by (simp add: writeObj_no_leak)
next
  fix w' assume "writeIconsManifest env stringify dir icons w = Inr w'"
  then show "\<exists>w1 w2.
            fs_writeFile env (path_resolve dir [''iconsManifest.mjs''])
              (''export const IconsManifest = '' @ stringify (writeObj icons)) w = Inr w1
          \<and> fs_writeFile env (path_resolve dir [''iconsManifest.js''])
              (''module.exports.IconsManifest = '' @ stringify (writeObj icons)) w1 = Inr w2
          \<and> fs_copyFile env ''src/iconsManifest.d.ts''
              (path_resolve dir [''iconsManifest.d.ts'']) w2 = Inr w'"
    by (rule writeIconsManifest_calls)
qed

theorem manifest_entries_witness:
  "writeObj [\<lparr>id' = ''fa'', name = ''Font Awesome'', files = ''svg/*.svg'',
       formatter = Some (\<lambda>pascalName. ''Fa'' @ pascalName), projectUrl = ''https://fontawesome.com'',
       license = ''MIT'', licenseUrl = ''https://opensource.org/licenses/MIT''\<rparr>]
     = [[(''id'', ''fa''), (''name'', ''Font Awesome''), (''projectUrl'', ''https://fontawesome.com''),
         (''license'', ''MIT''), (''licenseUrl'', ''https://opensource.org/licenses/MIT'')]]
   \<and> ''files'' \<notin> fst ` set [(''id'', ''fa''), (''name'', ''Font Awesome''),
         (''projectUrl'', ''https://fontawesome.com''),
         (''license'', ''MIT''), (''licenseUrl'', ''https://opensource.org/licenses/MIT'')]
   \<and> writeIconsManifest (posix (\<lambda>p. Inl (Error ''ENOENT'')) (\<lambda>p. Inr [])) (\<lambda>obj. ''[]'') ''/repo/lib''
       [\<lparr>id' = ''fa'', name = ''Font Awesome'', files = ''svg/*.svg'',
         formatter = Some (\<lambda>pascalName. ''Fa'' @ pascalName), projectUrl = ''https://fontawesome.com'',
         license = ''MIT'', licenseUrl = ''https://opensource.org/licenses/MIT''\<rparr>]
       \<lparr>dirs = [''/repo'', ''/repo/lib''], contents = [(''src/iconsManifest.d.ts'', ''export {}'')]\<rparr>
     = Inr \<lparr>dirs = [''/repo'', ''/repo/lib''],
            contents = [(''src/iconsManifest.d.ts'', ''export {}''),
                        (''/repo/lib/iconsManifest.mjs'', ''export const IconsManifest = []''),
                        (''/repo/lib/iconsManifest.js'', ''module.exports.IconsManifest = []''),
                        (''/repo/lib/iconsManifest.d.ts'', ''export {}'')]\<rparr>"
proof -
  let ?fa = "\<lparr>id' = ''fa'', name = ''Font Awesome'', files = ''svg/*.svg'',
       formatter = Some (\<lambda>pascalName. ''Fa'' @ pascalName), projectUrl = ''https://fontawesome.com'',
       license = ''MIT'', licenseUrl = ''https://opensource.org/licenses/MIT''\<rparr>"
  let ?e = "[(''id'', ''fa''), (''name'', ''Font Awesome''), (''projectUrl'', ''https://fontawesome.com''),
         (''license'', ''MIT''), (''licenseUrl'', ''https://opensource.org/licenses/MIT'')]"
  have obj: "writeObj [?fa] = [?e]"
    by (simp add: writeObj_def)
  have run: "writeIconsManifest (posix (\<lambda>p. Inl (Error ''ENOENT'')) (\<lambda>p. Inr [])) (\<lambda>obj. ''[]'') ''/repo/lib''
       [?fa]
       \<lparr>dirs = [''/repo'', ''/repo/lib''], contents = [(''src/iconsManifest.d.ts'', ''export {}'')]\<rparr>
     = Inr \<lparr>dirs = [''/repo'', ''/repo/lib''],
            contents = [(''src/iconsManifest.d.ts'', ''export {}''),
                        (''/repo/lib/iconsManifest.mjs'', ''export const IconsManifest = []''),
                        (''/repo/lib/iconsManifest.js'', ''module.exports.IconsManifest = []''),
                        (''/repo/lib/iconsManifest.d.ts'', ''export {}'')]\<rparr>"
    by (simp add: writeObj_def writeIconsManifest_def posix_def posix_writeFile_def posix_copyFile_def
      posix_put_def dirname_def path_resolve_def Let_def)
  have "\<forall>e \<in> set (writeObj [?fa]). ''files'' \<notin> fst ` set e \<and> ''formatter'' \<notin> fst ` set e"
    by (rule manifest_entries [THEN conjunct2, THEN conjunct2, THEN conjunct2, THEN conjunct1])
  then have "''files'' \<notin> fst ` set ?e"
    unfolding obj by simp
  with obj run show ?thesis by (simp only: simp_thms)
qed

subsection \<open>Auxiliary facts on the loop of writeIconModule\<close>

lemma appendAll_append:
  "appendAll env (xs @ ys) w =
     (case appendAll env xs w of Inl e \<Rightarrow> Inl e | Inr w1 \<Rightarrow> appendAll env ys w1)"
  by (induction xs arbitrary: w) (auto split: sum.splits)

lemma processed_subset: "set (processed icon fls ex) \<subseteq> set fls"
  by (induction fls arbitrary: ex) auto

lemma writeIconModule_files_exists:
  "writeIconModule_files env load gen DIST icon fls ex w = Inr (ex', w') \<Longrightarrow>
   ex' = ex \<union> (\<Union>f \<in> set (processed icon fls ex). {f, resolvedName icon f})"
proof (induction fls arbitrary: ex w)
  case Nil
  then show ?case by simp
next
  case (Cons f0 rest)
  show ?case
  proof (cases "resolvedName icon f0 \<in> ex")
    case True
    with Cons.prems have "writeIconModule_files env load gen DIST icon rest ex w = Inr (ex', w')"
      by (simp add: Let_def split: sum.splits)
    from Cons.IH [OF this] True show ?thesis by simp
  next
    case False
    with Cons.prems obtain w3 where
      "writeIconModule_files env load gen DIST icon rest
         (insert f0 (insert (resolvedName icon f0) ex)) w3 = Inr (ex', w')"
      by (auto simp: Let_def split: sum.splits)
    from Cons.IH [OF this] False show ?thesis by auto
  qed
qed

lemma writeIconModule_files_appendAll:
  assumes "\<forall>f \<in> set fls. \<exists>c. fs_readFile env f = Inr c"
  shows "writeIconModule_files env load gen DIST icon fls ex w =
     (case appendAll env (concat (map (file_rows env load gen DIST icon) (processed icon fls ex))) w of
        Inl e \<Rightarrow> Inl e
      | Inr w' \<Rightarrow> Inr (ex \<union> (\<Union>f \<in> set (processed icon fls ex). {f, resolvedName icon f}), w'))"
  using assms
proof (induction fls arbitrary: ex w)
  case Nil
  then show ?case by simp
next
  case (Cons f0 rest)
  then obtain c where c: "fs_readFile env f0 = Inr c" by auto
  from Cons.prems have rest: "\<forall>f \<in> set rest. \<exists>c. fs_readFile env f = Inr c" by simp
  note IH = Cons.IH [OF rest]
  show ?case
  proof (cases "resolvedName icon f0 \<in> ex")
    case True
    have p: "processed icon (f0 # rest) ex = processed icon rest ex"
      using True by simp
    have l: "writeIconModule_files env load gen DIST icon (f0 # rest) ex w
           = writeIconModule_files env load gen DIST icon rest ex w"
      using True c by (simp add: Let_def)
    show ?thesis unfolding p l by (rule IH)
  next
    case False
    let ?ex1 = "insert f0 (insert (resolvedName icon f0) ex)"
    have p: "processed icon (f0 # rest) ex = f0 # processed icon rest ?ex1"
      using False by simp
    have sets: "ex \<union> (\<Union>f \<in> set (f0 # processed icon rest ?ex1). {f, resolvedName icon f})
              = ?ex1 \<union> (\<Union>f \<in> set (processed icon rest ?ex1). {f, resolvedName icon f})"
      by auto
    show ?thesis
      unfolding p sets
      using False c
      by (simp add: Let_def file_rows_def IH split: sum.splits)
  qed
qed

lemma processed_append:
  "processed icon (xs @ ys) ex =
     processed icon xs ex
     @ processed icon ys (ex \<union> (\<Union>f \<in> set (processed icon xs ex). {f, resolvedName icon f}))"
proof (induction xs arbitrary: ex)
  case Nil
  then show ?case by simp
next
  case (Cons x xs)
  show ?case
  proof (cases "resolvedName icon x \<in> ex")
    case True
    then show ?thesis using Cons.IH [of ex] by simp
  next
    case False
    let ?ex1 = "insert x (insert (resolvedName icon x) ex)"
    have "ex \<union> (\<Union>f \<in> set (x # processed icon xs ?ex1). {f, resolvedName icon f})
        = ?ex1 \<union> (\<Union>f \<in> set (processed icon xs ?ex1). {f, resolvedName icon f})"
      by auto
    then show ?thesis using False Cons.IH [of ?ex1] by simp
  qed
qed

lemma processed_seen_skipped:
  "N \<in> ex \<Longrightarrow> filter (\<lambda>g. resolvedName icon g = N) (processed icon ys ex) = []"
  by (induction ys arbitrary: ex) auto

lemma processed_other_names:
  assumes "\<forall>g \<in> set xs. resolvedName icon g \<noteq> N"
  shows "filter (\<lambda>g. resolvedName icon g = N) (processed icon xs ex) = []"
proof -
  have "\<forall>g \<in> set (processed icon xs ex). resolvedName icon g \<noteq> N"
    using assms processed_subset by blast
  then show ?thesis by (simp add: filter_empty_conv)
qed

lemma processed_first_of_name:
  assumes "\<forall>g \<in> set pre. resolvedName icon g \<noteq> N"
    and "N \<notin> set (processed icon pre ex)"
    and "resolvedName icon f = N" and "N \<notin> ex"
  shows "filter (\<lambda>g. resolvedName icon g = N) (processed icon (pre @ f # post) ex) = [f]"
proof -
  let ?ex1 = "ex \<union> (\<Union>g \<in> set (processed icon pre ex). {g, resolvedName icon g})"
  have sub: "set (processed icon pre ex) \<subseteq> set pre" by (rule processed_subset)
  have notin: "N \<notin> ?ex1"
    using assms(1,2,4) sub by auto
  have pre: "filter (\<lambda>g. resolvedName icon g = N) (processed icon pre ex) = []"
    using assms(1) by (rule processed_other_names)
  have post: "filter (\<lambda>g. resolvedName icon g = N)
           (processed icon post (insert f (insert N ?ex1))) = []"
    by (intro processed_seen_skipped) simp
  have "processed icon (f # post) ?ex1 = f # processed icon post (insert f (insert N ?ex1))"
    using notin assms(3) by simp
  then show ?thesis
    unfolding processed_append using pre post assms(3) by simp
qed

lemma writeIconModule_gen_appendAll:
  assumes "glob env (files icon) = Inr fls"
    and "\<forall>f \<in> set fls. \<exists>c. fs_readFile env f = Inr c"
  shows "writeIconModule_gen env load gen DIST icon w =
     appendAll env (entry_rows DIST icon
        @ concat (map (file_rows env load gen DIST icon) (processed icon fls {}))) w"
  unfolding writeIconModule_gen_def appendAll_append
  using assms(1) writeIconModule_files_appendAll [OF assms(2)]
  by (simp add: entry_rows_def split: sum.splits)

subsection \<open>Duplicate names\<close>

text \<open>
  C3. Of the discovered files of an icon set that resolve to one name, exactly the first in
  discovery order produces rows in the three files of the set, and every later one is
  skipped without an error. This is what the set \<open>exists\<close> is kept for ("for remove
  duplicate"), and the loop does skip every file whose name is in the set
  (\<open>processed_seen_skipped\<close>) and processes the first file of a name that the set does
  not hold (\<open>processed_first_of_name\<close>). But the last statement of the loop body,
  \<open>exists.add(file)\<close>, puts the path of each processed file into the same set, and there
  the code breaks C3. In the icon set below every resolved name is an identifier. The file
  \<open>FaB\<close> is exported as \<open>FaFaB\<close>; \<open>icons/b.svg\<close> and \<open>more/b.svg\<close> both resolve to
  \<open>FaB\<close>, a name that no earlier file resolved to, and \<open>icons/b.svg\<close> is the first of
  them in discovery order. It is skipped for the path of the file \<open>FaB\<close>, so neither of
  the two produces a row: in both revisions the three files of the set hold the rows of
  \<open>FaFaB\<close> only.
\<close>

theorem first_file_of_name_skipped:
  "resolvedName \<lparr>id' = ''fa'', name = ''Font Awesome'', files = ''{FaB,*/b.svg}'',
        formatter = Some (\<lambda>pascalName. ''Fa'' @ pascalName), projectUrl = ''https://fontawesome.com'',
        license = ''MIT'', licenseUrl = ''https://opensource.org/licenses/MIT''\<rparr> ''FaB'' = ''FaFaB''
   \<and> resolvedName \<lparr>id' = ''fa'', name = ''Font Awesome'', files = ''{FaB,*/b.svg}'',
        formatter = Some (\<lambda>pascalName. ''Fa'' @ pascalName), projectUrl = ''https://fontawesome.com'',
        license = ''MIT'', licenseUrl = ''https://opensource.org/licenses/MIT''\<rparr> ''icons/b.svg'' = ''FaB''
   \<and> resolvedName \<lparr>id' = ''fa'', name = ''Font Awesome'', files = ''{FaB,*/b.svg}'',
        formatter = Some (\<lambda>pascalName. ''Fa'' @ pascalName), projectUrl = ''https://fontawesome.com'',
        license = ''MIT'', licenseUrl = ''https://opensource.org/licenses/MIT''\<rparr> ''more/b.svg'' = ''FaB''
   \<and> writeIconModule
         (posix (\<lambda>p. Inr ''<svg/>'') (\<lambda>pattern. Inr [''FaB'', ''icons/b.svg'', ''more/b.svg'']))
         (\<lambda>svg. [Node (Some ''svg'') (Some []) (Some [])]) (\<lambda>iconData. ''{}'') ''/repo/lib''
         \<lparr>id' = ''fa'', name = ''Font Awesome'', files = ''{FaB,*/b.svg}'',
           formatter = Some (\<lambda>pascalName. ''Fa'' @ pascalName), projectUrl = ''https://fontawesome.com'',
           license = ''MIT'', licenseUrl = ''https://opensource.org/licenses/MIT''\<rparr>
         \<lparr>dirs = [''/repo'', ''/repo/lib'', ''/repo/lib/fa''], contents = []\<rparr>
     = Inr \<lparr>dirs = [''/repo'', ''/repo/lib'', ''/repo/lib/fa''],
         contents =
           [(''/repo/lib/all.mjs'', ''export * from '' @ quote @ ''./fa'' @ quote @ '';'' @ newline),
            (''/repo/lib/all.d.ts'', ''export * from '' @ quote @ ''./fa'' @ quote @ '';'' @ newline),
            (''/repo/lib/fa/index.mjs'',
               ''export const DataFaFaB = {};'' @ newline
               @ ''export const FaFaB = function (props) { return GenIcon(DataFaFaB)(props); };'' @ newline),
            (''/repo/lib/fa/index.js'',
               ''module.exports.DataFaFaB = {};'' @ newline
               @ ''module.exports.FaFaB = function (props) { return GenIcon(module.exports.DataFaFaB)(props); };''
               @ newline),
            (''/repo/lib/fa/index.d.ts'',
               ''export declare const DataFaFaB: IconData;'' @ newline
               @ ''export declare const FaFaB: IconType;'' @ newline)]\<rparr>
   \<and> writeIconModule_rev
         (posix (\<lambda>p. Inr ''<svg/>'') (\<lambda>pattern. Inr [''FaB'', ''icons/b.svg'', ''more/b.svg'']))
         (\<lambda>svg. [Node (Some ''svg'') (Some []) (Some [])]) (\<lambda>iconData. ''{}'') ''/repo''
         \<lparr>id' = ''fa'', name = ''Font Awesome'', files = ''{FaB,*/b.svg}'',
           formatter = Some (\<lambda>pascalName. ''Fa'' @ pascalName), projectUrl = ''https://fontawesome.com'',
           license = ''MIT'', licenseUrl = ''https://opensource.org/licenses/MIT''\<rparr>
         \<lparr>dirs = [''/repo'', ''/repo/fa''], contents = []\<rparr>
     = Inr \<lparr>dirs = [''/repo'', ''/repo/fa''],
         contents =
           [(''/repo/all.mjs'', ''export * from '' @ quote @ ''./fa'' @ quote @ '';'' @ newline),
            (''/repo/all.d.ts'', ''export * from '' @ quote @ ''./fa'' @ quote @ '';'' @ newline),
            (''/repo/fa/index.mjs'',
               ''export var FaFaB = function (props) {'' @ newline
               @ ''  return GenIcon({})(props);'' @ newline @ ''};'' @ newline),
            (''/repo/fa/index.js'',
               ''module.exports.FaFaB = function (props) {'' @ newline
               @ ''  return GenIcon({})(props);'' @ newline @ ''};'' @ newline),
            (''/repo/fa/index.d.ts'', ''export declare const FaFaB: IconType;'' @ newline)]\<rparr>"
  by (simp add: resolvedName_def path_basename_def path_extname_def last_segment_def
      pascalcase_def camelcase_def toUpperCase_char_def
      writeIconModule_def writeIconModule_rev_def writeIconModule_gen_def appendFile_utf8_def
      generateIconsEntry_def generateIconRow_def generateIconRow_rev_def
      posix_def posix_appendFile_def posix_put_def dirname_def
      path_resolve_def convertIconData_def attrConverter_def removed_def Let_def)

subsection \<open>The set of seen names\<close>

text \<open>
  C9. When the loop of \<open>writeIconModule\<close> returns, the set \<open>exists\<close> is the one it
  started with, extended with the path and the resolved name of every file that was
  processed; with readable files, the processed files are those for which the loop
  appends rows. So a file can be skipped because its resolved name is the path of an
  earlier file: in the icon set below, \<open>svg/b.svg\<close> resolves to \<open>svg/a.svg\<close>, a name
  that no earlier file resolved to, and is skipped.
\<close>

theorem seen_set_holds_paths:
  "(\<forall>ex' w'. writeIconModule_files env load gen DIST icon fls ex w = Inr (ex', w') \<longrightarrow>
      ex' = ex \<union> (\<Union>f \<in> set (processed icon fls ex). {f, resolvedName icon f}))
   \<and> ((\<forall>f \<in> set fls. \<exists>c. fs_readFile env f = Inr c) \<longrightarrow>
        writeIconModule_files env load gen DIST icon fls ex w =
          (case appendAll env (concat (map (file_rows env load gen DIST icon) (processed icon fls ex))) w of
             Inl e \<Rightarrow> Inl e
           | Inr w' \<Rightarrow> Inr (ex \<union> (\<Union>f \<in> set (processed icon fls ex). {f, resolvedName icon f}), w')))
   \<and> resolvedName \<lparr>id' = ''ic'', name = ''Icons'', files = ''svg/*.svg'',
        formatter = Some (\<lambda>pascalName. if pascalName = ''A'' then ''IcA'' else ''svg/a.svg''),
        projectUrl = ''https://example.org'', license = ''MIT'',
        licenseUrl = ''https://opensource.org/licenses/MIT''\<rparr> ''svg/a.svg'' = ''IcA''
   \<and> resolvedName \<lparr>id' = ''ic'', name = ''Icons'', files = ''svg/*.svg'',
        formatter = Some (\<lambda>pascalName. if pascalName = ''A'' then ''IcA'' else ''svg/a.svg''),
        projectUrl = ''https://example.org'', license = ''MIT'',
        licenseUrl = ''https://opensource.org/licenses/MIT''\<rparr> ''svg/b.svg'' = ''svg/a.svg''
   \<and> processed \<lparr>id' = ''ic'', name = ''Icons'', files = ''svg/*.svg'',
        formatter = Some (\<lambda>pascalName. if pascalName = ''A'' then ''IcA'' else ''svg/a.svg''),
        projectUrl = ''https://example.org'', license = ''MIT'',
        licenseUrl = ''https://opensource.org/licenses/MIT''\<rparr> [''svg/a.svg'', ''svg/b.svg''] {}
       = [''svg/a.svg'']"
proof (intro conjI allI impI)
  fix ex' w'
  assume "writeIconModule_files env load gen DIST icon fls ex w = Inr (ex', w')"
  then show "ex' = ex \<union> (\<Union>f \<in> set (processed icon fls ex). {f, resolvedName icon f})"
    by (rule writeIconModule_files_exists)
next
  assume "\<forall>f \<in> set fls. \<exists>c. fs_readFile env f = Inr c"
  then show "writeIconModule_files env load gen DIST icon fls ex w =
          (case appendAll env (concat (map (file_rows env load gen DIST icon) (processed icon fls ex))) w of
             Inl e \<Rightarrow> Inl e
           | Inr w' \<Rightarrow> Inr (ex \<union> (\<Union>f \<in> set (processed icon fls ex). {f, resolvedName icon f}), w'))"
    by (rule writeIconModule_files_appendAll)
qed (simp_all add: resolvedName_def path_basename_def path_extname_def last_segment_def
      pascalcase_def camelcase_def toUpperCase_char_def)

theorem seen_set_holds_paths_witness:
  "writeIconModule_files
       (posix (\<lambda>p. Inr ''<svg/>'') (\<lambda>pattern. Inr [''svg/a.svg'', ''svg/b.svg'']))
       (\<lambda>svg. [Node (Some ''svg'') (Some []) (Some [])])
       (generateIconRow (\<lambda>iconData. ''{}'')) ''/repo/lib''
       \<lparr>id' = ''ic'', name = ''Icons'', files = ''svg/*.svg'',
        formatter = Some (\<lambda>pascalName. if pascalName = ''A'' then ''IcA'' else ''svg/a.svg''),
        projectUrl = ''https://example.org'', license = ''MIT'',
        licenseUrl = ''https://opensource.org/licenses/MIT''\<rparr>
       [''svg/a.svg'', ''svg/b.svg''] {}
       \<lparr>dirs = [''/repo'', ''/repo/lib'', ''/repo/lib/ic''], contents = []\<rparr>
     = Inr ({''svg/a.svg'', ''IcA''},
        \<lparr>dirs = [''/repo'', ''/repo/lib'', ''/repo/lib/ic''],
         contents =
           [(''/repo/lib/ic/index.mjs'',
               ''export const DataIcA = {};'' @ newline
               @ ''export const IcA = function (props) { return GenIcon(DataIcA)(props); };'' @ newline),
            (''/repo/lib/ic/index.js'',
               ''module.exports.DataIcA = {};'' @ newline
               @ ''module.exports.IcA = function (props) { return GenIcon(module.exports.DataIcA)(props); };''
               @ newline),
            (''/repo/lib/ic/index.d.ts'',
               ''export declare const DataIcA: IconData;'' @ newline
               @ ''export declare const IcA: IconType;'' @ newline)]\<rparr>)
   \<and> {''svg/a.svg'', ''IcA''}
       = {} \<union> (\<Union>f \<in> set [''svg/a.svg'']. {f, ''IcA''})"
proof -
  let ?ic = "\<lparr>id' = ''ic'', name = ''Icons'', files = ''svg/*.svg'',
        formatter = Some (\<lambda>pascalName. if pascalName = ''A'' then ''IcA'' else ''svg/a.svg''),
        projectUrl = ''https://example.org'', license = ''MIT'',
        licenseUrl = ''https://opensource.org/licenses/MIT''\<rparr>"
  let ?env = "posix (\<lambda>p. Inr ''<svg/>'') (\<lambda>pattern. Inr [''svg/a.svg'', ''svg/b.svg''])"
  let ?s' = "\<lparr>dirs = [''/repo'', ''/repo/lib'', ''/repo/lib/ic''],
         contents =
           [(''/repo/lib/ic/index.mjs'',
               ''export const DataIcA = {};'' @ newline
               @ ''export const IcA = function (props) { return GenIcon(DataIcA)(props); };'' @ newline),
            (''/repo/lib/ic/index.js'',
               ''module.exports.DataIcA = {};'' @ newline
               @ ''module.exports.IcA = function (props) { return GenIcon(module.exports.DataIcA)(props); };''
               @ newline),
            (''/repo/lib/ic/index.d.ts'',
               ''export declare const DataIcA: IconData;'' @ newline
               @ ''export declare const IcA: IconType;'' @ newline)]\<rparr>"
  have run: "writeIconModule_files ?env (\<lambda>svg. [Node (Some ''svg'') (Some []) (Some [])])
       (generateIconRow (\<lambda>iconData. ''{}'')) ''/repo/lib'' ?ic
       [''svg/a.svg'', ''svg/b.svg''] {}
       \<lparr>dirs = [''/repo'', ''/repo/lib'', ''/repo/lib/ic''], contents = []\<rparr>
     = Inr ({''svg/a.svg'', ''IcA''}, ?s')"
    by (simp add: resolvedName_def path_basename_def path_extname_def last_segment_def
      pascalcase_def camelcase_def toUpperCase_char_def
      appendFile_utf8_def generateIconRow_def posix_def posix_appendFile_def posix_put_def dirname_def
      path_resolve_def convertIconData_def attrConverter_def removed_def Let_def insert_commute)
  have "{''svg/a.svg'', ''IcA''}
       = {} \<union> (\<Union>f \<in> set (processed ?ic [''svg/a.svg'', ''svg/b.svg''] {}). {f, resolvedName ?ic f})"
    by (rule seen_set_holds_paths [THEN conjunct1, rule_format, OF run])
  also have "processed ?ic [''svg/a.svg'', ''svg/b.svg''] {} = [''svg/a.svg'']"
    by (rule seen_set_holds_paths [THEN conjunct2, THEN conjunct2, THEN conjunct2, THEN conjunct2])
  finally have "{''svg/a.svg'', ''IcA''}
       = {} \<union> (\<Union>f \<in> set [''svg/a.svg'']. {f, resolvedName ?ic f})" .
  then have "{''svg/a.svg'', ''IcA''} = {} \<union> (\<Union>f \<in> set [''svg/a.svg'']. {f, ''IcA''})"
    by (simp add: seen_set_holds_paths [THEN conjunct2, THEN conjunct2, THEN conjunct1])
  with run show ?thesis by (simp only: simp_thms)
qed

section \<open>Properties of the initialization\<close>

subsection \<open>dirInit as a run of guarded steps\<close>

lemma run_append:
  "run_ignoring_EEXIST env (xs @ ys) w =
     (case run_ignoring_EEXIST env xs w of Inl e \<Rightarrow> Inl e | Inr w1 \<Rightarrow> run_ignoring_EEXIST env ys w1)"
  by (induction xs arbitrary: w) (auto split: sum.splits)

lemma catch_ignore_run:
  "catch_ignore (exec env st w) w = run_ignoring_EEXIST env [st] w"
  by (simp add: catch_ignore_def ignore_def split: sum.splits)

lemma write'_run:
  "write' env DIST filePath str w =
     run_ignoring_EEXIST env [WriteFile (path_resolve DIST filePath) str] w"
  unfolding write'_def using catch_ignore_run [of env "WriteFile (path_resolve DIST filePath) str" w]
  by simp

lemma mkdir_run:
  "catch_ignore (fs_mkdir env p w) w = run_ignoring_EEXIST env [Mkdir p] w"
  using catch_ignore_run [of env "Mkdir p" w] by simp

lemma run_Cons:
  "run_ignoring_EEXIST env (st # sts) w =
     (case run_ignoring_EEXIST env [st] w of Inl e \<Rightarrow> Inl e | Inr w1 \<Rightarrow> run_ignoring_EEXIST env sts w1)"
  using run_append [of env "[st]" sts w] by simp

lemma dirInit_icons_run:
  "dirInit_icons env DIST base tyname icons w =
     run_ignoring_EEXIST env (concat (map (icon_steps DIST base tyname) icons)) w"
proof (induction icons arbitrary: w)
  case Nil
  then show ?case by simp
next
  case (Cons icon icons)
  have steps: "concat (map (icon_steps DIST base tyname) (icon # icons))
      = [Mkdir (path_resolve DIST [id' icon])]
        @ [WriteFile (path_resolve DIST [id' icon, ''index.js''])
            (''// THIS FILE IS AUTO GENERATED'' @ newline
             @ ''const { GenIcon } = require('' @ quote @ base @ quote @ '')'' @ newline)]
        @ [WriteFile (path_resolve DIST [id' icon, ''index.mjs''])
            (''// THIS FILE IS AUTO GENERATED'' @ newline
             @ ''import { GenIcon } from '' @ quote @ base @ quote @ '';'' @ newline)]
        @ [WriteFile (path_resolve DIST [id' icon, ''index.d.ts''])
            (''import { '' @ tyname @ '', IconType } from '' @ quote @ base @ quote @ newline
             @ ''// THIS FILE IS AUTO GENERATED'' @ newline)]
        @ concat (map (icon_steps DIST base tyname) icons)"
    by (simp add: icon_steps_def)
  show ?case
    unfolding steps run_append dirInit_icons.simps mkdir_run write'_run Cons.IH
    by (rule refl)
qed

lemma dirInit_files_run:
  "dirInit_files env DIST fls w = run_ignoring_EEXIST env (file_steps DIST fls) w"
proof (induction fls arbitrary: w)
  case Nil
  then show ?case by (simp add: file_steps_def)
next
  case (Cons f0 fls)
  have steps: "file_steps DIST (f0 # fls)
     = [WriteFile (path_resolve DIST [f0]) (''// THIS FILE IS AUTO GENERATED'' @ newline)]
       @ file_steps DIST fls"
    by (simp add: file_steps_def)
  show ?case
    unfolding steps run_append dirInit_files.simps write'_run Cons.IH
    by (rule refl)
qed

lemma dirInit_run:
  "dirInit env DIST icons w = run_ignoring_EEXIST env (dirInit_steps DIST icons) w"
proof -
  have steps: "dirInit_steps DIST icons
      = [Mkdir DIST] @ concat (map (icon_steps DIST ''../iconBase'' ''IconData'') icons)
        @ file_steps DIST [''index.d.ts'', ''index.mjs'', ''all.mjs'', ''all.d.ts'']"
    by (simp add: dirInit_steps_def)
  show ?thesis
    unfolding steps run_append dirInit_def mkdir_run dirInit_icons_run dirInit_files_run
    by (rule refl)
qed

lemma run_error:
  "run_ignoring_EEXIST env steps w = Inl e \<Longrightarrow>
   code e \<noteq> ''EEXIST'' \<and> (\<exists>st \<in> set steps. \<exists>w1. exec env st w1 = Inl e)"
proof (induction steps arbitrary: w)
  case Nil
  then show ?case by simp
next
  case (Cons st sts)
  show ?case
  proof (cases "exec env st w")
    case (Inr w1)
    with Cons.prems have "run_ignoring_EEXIST env sts w1 = Inl e" by simp
    from Cons.IH [OF this] show ?thesis by auto
  next
    case (Inl e1)
    show ?thesis
    proof (cases "code e1 = ''EEXIST''")
      case True
      with Inl Cons.prems have "run_ignoring_EEXIST env sts w = Inl e" by simp
      from Cons.IH [OF this] show ?thesis by auto
    next
      case False
      with Inl Cons.prems have "e = e1" by simp
      with Inl False show ?thesis by auto
    qed
  qed
qed

lemma run_only_EEXIST:
  assumes "\<forall>st \<in> set steps. \<forall>w1 e. exec env st w1 = Inl e \<longrightarrow> code e = ''EEXIST''"
  shows "\<exists>w'. run_ignoring_EEXIST env steps w = Inr w'"
proof (cases "run_ignoring_EEXIST env steps w")
  case (Inl e)
  from run_error [OF this] assms show ?thesis by blast
next
  case (Inr w')
  then show ?thesis by blast
qed

lemma run_step_fails:
  assumes "run_ignoring_EEXIST env pre w = Inr w1" and "exec env st w1 = Inl e"
  shows "run_ignoring_EEXIST env (pre @ st # post) w =
     (if code e = ''EEXIST'' then run_ignoring_EEXIST env post w1 else Inl e)"
  unfolding run_append using assms by simp

subsection \<open>Running again on a POSIX directory tree\<close>

lemma exec_posix_Mkdir: "fs_mkdir (posix rd gl) p s = posix_mkdir p s"
  by (simp add: posix_def)

lemma exec_posix_WriteFile: "fs_writeFile (posix rd gl) p str s = posix_put p (\<lambda>old. str) s"
  by (simp add: posix_def posix_writeFile_def)

lemma posix_mkdir_Inr:
  "posix_mkdir p s = Inr u \<Longrightarrow>
   set (dirs u) = insert p (set (dirs s)) \<and> contents u = contents s
   \<and> p \<notin> set (dirs s) \<and> p \<notin> fst ` set (contents s)"
  by (auto simp: posix_mkdir_def split: if_splits)

lemma posix_mkdir_Inl:
  "posix_mkdir p s = Inl e \<Longrightarrow> code e = ''EEXIST'' \<Longrightarrow>
   p \<in> set (dirs s) \<or> p \<in> fst ` set (contents s)"
  by (auto simp: posix_mkdir_def split: if_splits)

lemma posix_put_Inr:
  "posix_put p f s = Inr u \<Longrightarrow>
   dirs u = dirs s \<and> fst ` set (contents u) = insert p (fst ` set (contents s))
   \<and> p \<notin> set (dirs s) \<and> dirname p \<in> set (dirs s) \<and> dirname p \<notin> fst ` set (contents s)"
proof -
  assume a: "posix_put p f s = Inr u"
  then have c: "p \<notin> set (dirs s)" "dirname p \<in> set (dirs s)"
      "dirname p \<notin> fst ` set (contents s)"
    by (auto simp: posix_put_def split: if_splits)
  with a have u: "u = s\<lparr>contents := AList.update p (f (map_of (contents s) p)) (contents s)\<rparr>"
    by (simp add: posix_put_def)
  have "fst ` set (contents u) = insert p (fst ` set (contents s))"
    unfolding u by (simp add: dom_update)
  moreover have "dirs u = dirs s" unfolding u by simp
  ultimately show ?thesis using c by simp
qed

lemma posix_put_Inl: "posix_put p f s = Inl e \<Longrightarrow> code e \<noteq> ''EEXIST''"
  by (auto simp: posix_put_def split: if_splits)

lemma settled_mkdir:
  "settled s st \<Longrightarrow> posix_mkdir q s = Inr u \<Longrightarrow> settled u st"
  by (cases st) (auto dest!: posix_mkdir_Inr)

lemma settled_put:
  "settled s st \<Longrightarrow> posix_put q f s = Inr u \<Longrightarrow> settled u st"
  by (cases st) (auto dest!: posix_put_Inr)

lemma settled_later: "later s t \<Longrightarrow> settled s st \<Longrightarrow> settled t st"
  by (induction rule: later.induct) (auto intro: settled_mkdir settled_put)

lemma run1_settled:
  "run_ignoring_EEXIST (posix rd gl) [st] s = Inr u \<Longrightarrow> settled u st"
proof (cases st)
  case (Mkdir p)
  assume r: "run_ignoring_EEXIST (posix rd gl) [st] s = Inr u"
  show ?thesis
  proof (cases "posix_mkdir p s")
    case (Inl e)
    with r Mkdir have "code e = ''EEXIST''" "u = s"
      by (auto simp: exec_posix_Mkdir split: if_splits)
    with posix_mkdir_Inl [OF Inl] Mkdir show ?thesis by simp
  next
    case (Inr v)
    with r Mkdir have "u = v" by (simp add: exec_posix_Mkdir)
    with posix_mkdir_Inr [OF Inr] Mkdir show ?thesis by simp
  qed
next
  case (WriteFile p str)
  assume r: "run_ignoring_EEXIST (posix rd gl) [st] s = Inr u"
  show ?thesis
  proof (cases "posix_put p (\<lambda>old. str) s")
    case (Inl e)
    with r WriteFile posix_put_Inl [OF Inl] show ?thesis
      by (simp add: exec_posix_WriteFile)
  next
    case (Inr v)
    with r WriteFile have "u = v" by (simp add: exec_posix_WriteFile)
    with posix_put_Inr [OF Inr] WriteFile show ?thesis by auto
  qed
qed

lemma run1_later:
  "run_ignoring_EEXIST (posix rd gl) [st] s = Inr u \<Longrightarrow> later s u"
proof (cases st)
  case (Mkdir p)
  assume r: "run_ignoring_EEXIST (posix rd gl) [st] s = Inr u"
  show ?thesis
  proof (cases "posix_mkdir p s")
    case (Inl e)
    with r Mkdir have "u = s"
      by (auto simp: exec_posix_Mkdir split: if_splits)
    then show ?thesis by (simp add: later_refl)
  next
    case (Inr v)
    with r Mkdir have "u = v" by (simp add: exec_posix_Mkdir)
    with Inr show ?thesis by (auto intro: later_mkdir later_refl)
  qed
next
  case (WriteFile p str)
  assume r: "run_ignoring_EEXIST (posix rd gl) [st] s = Inr u"
  show ?thesis
  proof (cases "posix_put p (\<lambda>old. str) s")
    case (Inl e)
    with r WriteFile posix_put_Inl [OF Inl] show ?thesis
      by (simp add: exec_posix_WriteFile)
  next
    case (Inr v)
    with r WriteFile have "u = v" by (simp add: exec_posix_WriteFile)
    with Inr show ?thesis by (auto intro: later_put later_refl)
  qed
qed

lemma later_trans: "later t u \<Longrightarrow> later s t \<Longrightarrow> later s u"
  by (induction rule: later.induct) (auto intro: later.intros)

lemma run_later:
  "run_ignoring_EEXIST (posix rd gl) steps s = Inr u \<Longrightarrow> later s u"
proof (induction steps arbitrary: s)
  case Nil
  then show ?case by (simp add: later_refl)
next
  case (Cons st sts)
  from Cons.prems obtain s1 where
    1: "run_ignoring_EEXIST (posix rd gl) [st] s = Inr s1"
    and 2: "run_ignoring_EEXIST (posix rd gl) sts s1 = Inr u"
    unfolding run_Cons [of _ st sts] by (auto split: sum.splits)
  from run1_later [OF 1] Cons.IH [OF 2] show ?case by (rule later_trans [rotated])
qed

lemma run_settled:
  "run_ignoring_EEXIST (posix rd gl) steps s = Inr u \<Longrightarrow> \<forall>st \<in> set steps. settled u st"
proof (induction steps arbitrary: s)
  case Nil
  then show ?case by simp
next
  case (Cons st sts)
  from Cons.prems obtain s1 where
    1: "run_ignoring_EEXIST (posix rd gl) [st] s = Inr s1"
    and 2: "run_ignoring_EEXIST (posix rd gl) sts s1 = Inr u"
    unfolding run_Cons [of _ st sts] by (auto split: sum.splits)
  have "settled u st"
    using run1_settled [OF 1] run_later [OF 2] by (rule settled_later [rotated])
  with Cons.IH [OF 2] show ?case by simp
qed

lemma settled_run1:
  "settled s st \<Longrightarrow> \<exists>u. run_ignoring_EEXIST (posix rd gl) [st] s = Inr u"
proof (cases st)
  case (Mkdir p)
  assume "settled s st"
  with Mkdir show ?thesis
    by (auto simp: exec_posix_Mkdir posix_mkdir_def)
next
  case (WriteFile p str)
  assume "settled s st"
  with WriteFile show ?thesis
    by (auto simp: exec_posix_WriteFile posix_put_def)
qed

lemma settled_run:
  "\<forall>st \<in> set steps. settled s st \<Longrightarrow> \<exists>u. run_ignoring_EEXIST (posix rd gl) steps s = Inr u"
proof (induction steps arbitrary: s)
  case Nil
  then show ?case by simp
next
  case (Cons st sts)
  then have "settled s st" by simp
  from settled_run1 [OF this] obtain s1 where
    1: "run_ignoring_EEXIST (posix rd gl) [st] s = Inr s1" by blast
  have "\<forall>x \<in> set sts. settled s1 x"
    using Cons.prems run1_later [OF 1] by (auto intro: settled_later)
  from Cons.IH [OF this] obtain u where "run_ignoring_EEXIST (posix rd gl) sts s1 = Inr u"
    by blast
  with 1 show ?case unfolding run_Cons [of _ st sts] by simp
qed

lemma dirInit_again:
  assumes "dirInit (posix rd gl) DIST icons s = Inr s'" and "later s' t"
  shows "\<exists>t'. dirInit (posix rd gl) DIST icons t = Inr t'"
proof -
  from assms(1) have "\<forall>st \<in> set (dirInit_steps DIST icons). settled s' st"
    unfolding dirInit_run by (rule run_settled)
  with assms(2) have "\<forall>st \<in> set (dirInit_steps DIST icons). settled t st"
    by (blast intro: settled_later)
  then show ?thesis unfolding dirInit_run by (rule settled_run)
qed

subsection \<open>The write that is not awaited\<close>

lemma dirInit_rev_unhandled:
  assumes "catch_ignore (fs_mkdir env DIST w) w = Inr w1"
    and "catch_ignore (fs_mkdir env LIB w1) w1 = Inr w2"
    and "fs_writeFile env (path_resolve DIST [''.gitignore'']) (gitignore icons) w2 = Inl e"
  shows "dirInit_rev env DIST LIB icons w = Unhandled e"
  using assms by (simp add: dirInit_rev_def)

text \<open>
  C8. During \<open>dirInit\<close> a failure with the code \<open>EEXIST\<close> is ignored and the
  initialization goes on, a failure with any other code propagates; so a second run does
  not fail on the directories and files it finds. This holds for every call of
  \<open>dirInit\<close> that is awaited under \<open>.catch(ignore)\<close>, which in one revision is every
  call: \<open>dirInit\<close> is the run of its calls in which \<open>EEXIST\<close>
  is passed over and any other error is returned (\<open>dirInit_run\<close>, \<open>run_step_fails\<close>,
  \<open>run_error\<close>, \<open>run_only_EEXIST\<close>), and on a POSIX directory tree it succeeds again
  in every later state (\<open>dirInit_again\<close>). The revision that writes \<open>.gitignore\<close>
  breaks C8 at that one call, made without \<open>await\<close> and without the handler: whatever
  the code of its error, \<open>EEXIST\<close> included, the error is neither ignored nor thrown by
  \<open>dirInit\<close> (\<open>dirInit_rev_unhandled\<close>). On a tree where \<open>/repo/.gitignore\<close> is a
  directory the write fails with \<open>EISDIR\<close> and the outcome is an unhandled rejection;
  the same failure of an awaited sibling, the write of \<open>index.js\<close>, rejects \<open>dirInit\<close>
  in both revisions. On a fresh tree the revision resolves and has written the ignore
  file.
\<close>

theorem dirInit_rev_gitignore_unhandled:
  "dirInit_rev (posix (\<lambda>p. Inl (Error ''ENOENT'')) (\<lambda>pattern. Inr [])) ''/repo'' ''/repo/lib''
      [\<lparr>id' = ''fa'', name = ''Font Awesome'', files = ''svg/*.svg'', formatter = None,
        projectUrl = ''https://fontawesome.com'', license = ''MIT'',
        licenseUrl = ''https://opensource.org/licenses/MIT''\<rparr>]
      \<lparr>dirs = [''/'', ''/repo'', ''/repo/.gitignore''], contents = []\<rparr>
     = Unhandled (Error ''EISDIR'')
   \<and> dirInit_rev (posix (\<lambda>p. Inl (Error ''ENOENT'')) (\<lambda>pattern. Inr [])) ''/repo'' ''/repo/lib''
      [\<lparr>id' = ''fa'', name = ''Font Awesome'', files = ''svg/*.svg'', formatter = None,
        projectUrl = ''https://fontawesome.com'', license = ''MIT'',
        licenseUrl = ''https://opensource.org/licenses/MIT''\<rparr>]
      \<lparr>dirs = [''/'', ''/repo'', ''/repo/fa'', ''/repo/fa/index.js''], contents = []\<rparr>
     = Rejected (Error ''EISDIR'')
   \<and> dirInit (posix (\<lambda>p. Inl (Error ''ENOENT'')) (\<lambda>pattern. Inr [])) ''/repo/lib''
      [\<lparr>id' = ''fa'', name = ''Font Awesome'', files = ''svg/*.svg'', formatter = None,
        projectUrl = ''https://fontawesome.com'', license = ''MIT'',
        licenseUrl = ''https://opensource.org/licenses/MIT''\<rparr>]
      \<lparr>dirs = [''/'', ''/repo'', ''/repo/lib'', ''/repo/lib/fa'', ''/repo/lib/fa/index.js''],
        contents = []\<rparr>
     = Inl (Error ''EISDIR'')
   \<and> (case dirInit_rev (posix (\<lambda>p. Inl (Error ''ENOENT'')) (\<lambda>pattern. Inr [])) ''/repo'' ''/repo/lib''
        [\<lparr>id' = ''fa'', name = ''Font Awesome'', files = ''svg/*.svg'', formatter = None,
          projectUrl = ''https://fontawesome.com'', license = ''MIT'',
          licenseUrl = ''https://opensource.org/licenses/MIT''\<rparr>]
        \<lparr>dirs = [''/'', ''/repo''], contents = []\<rparr> of
        Resolved s \<Rightarrow> Some (dirs s, map fst (contents s), map_of (contents s) ''/repo/.gitignore'')
      | Rejected e \<Rightarrow> None
      | Unhandled e \<Rightarrow> None)
     = Some ([''/'', ''/repo'', ''/repo/lib'', ''/repo/fa''],
             [''/repo/.gitignore'', ''/repo/fa/index.js'', ''/repo/fa/index.mjs'',
              ''/repo/fa/index.d.ts'', ''/repo/index.d.ts'', ''/repo/index.mjs'',
              ''/repo/all.mjs'', ''/repo/all.d.ts''],
             Some (''# autogenerated'' @ newline @ ''index.d.ts'' @ newline @ ''index.mjs'' @ newline
                   @ ''all.mjs'' @ newline @ ''all.d.ts'' @ newline @ ''fa/'' @ newline))"
  by (simp add: dirInit_rev_def dirInit_def write'_def catch_ignore_def ignore_def posix_def
      posix_mkdir_def posix_writeFile_def posix_put_def dirname_def path_resolve_def
      gitignore_def initFiles_def join_def)

end
